theory Spec2Isabelle
  imports Complex_Main
begin

section \<open>The trajectory model: class DronePhysics\<close>

text \<open>
  Python floats are modelled as real numbers: the decimal constants of the source are the
  exact rationals they denote, and \<open>math.cos\<close>, \<open>math.sin\<close>, \<open>math.pi\<close> are the real
  functions and the real constant. Rounding is outside this model.

  The exceptions the source can raise or catches are the values of one datatype.
\<close>

datatype error = ZeroDivisionError | JSONDecodeError | ConnectionClosed | OtherException

text \<open>The attributes that \<open>__init__\<close> assigns, one field each.\<close>

record drone_physics =
  base_lat :: real
  base_lng :: real
  angle :: real
  angular_speed :: real
  radius :: real
  lat :: real
  lng :: real
  alt :: real
  vel_lat :: real
  vel_lng :: real
  vel_alt :: real
  acc_lat :: real
  acc_lng :: real
  acc_alt :: real
  target_lat :: real
  target_lng :: real
  target_alt :: real
  smooth_factor :: real
  noise_amplitude :: real

text \<open>
  \<open>DronePhysics.__init__(init_lat, init_lng, init_alt)\<close>. The assignments are made in the
  order of the source: each right-hand side reads the attributes assigned before it.
\<close>

definition DronePhysics_init :: "real \<Rightarrow> real \<Rightarrow> real \<Rightarrow> drone_physics" where
  "DronePhysics_init init_lat init_lng init_alt =
     (let a = (0::real);
          w = (15 / 100 :: real);
          r = (8 / 10000 :: real);
          lat0 = init_lat + r * cos a;
          lng0 = init_lng + r * sin a
      in \<lparr> base_lat = init_lat,
           base_lng = init_lng,
           angle = a,
           angular_speed = w,
           radius = r,
           lat = lat0,
           lng = lng0,
           alt = init_alt,
           vel_lat = - r * w * sin a,
           vel_lng = r * w * cos a,
           vel_alt = 0,
           acc_lat = - r * w ^ 2 * cos a,
           acc_lng = - r * w ^ 2 * sin a,
           acc_alt = 0,
           target_lat = lat0,
           target_lng = lng0,
           target_alt = init_alt,
           smooth_factor = 95 / 100,
           noise_amplitude = 1 / 1000000 \<rparr>)"

text \<open>
  Python's \<open>x % y\<close> on floats, in exact arithmetic: \<open>ZeroDivisionError\<close> when \<open>y\<close> is
  zero, otherwise the remainder of the floored division, which has the sign of \<open>y\<close> and
  is smaller than \<open>y\<close> in absolute value. On IEEE doubles the operator is \<open>float_rem\<close>
  below: the two agree when \<open>x\<close> is not negative and \<open>y\<close> is positive, where no rounding
  takes place; for a negative \<open>x\<close> the double result is rounded and can be \<open>y\<close> itself.
\<close>

definition py_fmod :: "real \<Rightarrow> real \<Rightarrow> error + real" where
  "py_fmod x y =
     (if y = 0 then Inl ZeroDivisionError
      else Inr (x - y * of_int \<lfloor>x / y\<rfloor>))"

text \<open>
  \<open>DronePhysics.update(dt)\<close>. The two calls of \<open>random.random()\<close> are the arguments
  \<open>u_lat\<close> and \<open>u_lng\<close>, in the order the source draws them; \<open>random.random()\<close> returns a
  number in the half-open interval from 0 to 1, which is the predicate \<open>sample\<close> below.
  The object is mutated in place, so the model returns the new state; the only operation
  of the body that can raise is the \<open>%\<close>.
\<close>

definition update :: "real \<Rightarrow> real \<Rightarrow> real \<Rightarrow> drone_physics \<Rightarrow> error + drone_physics" where
  "update dt u_lat u_lng s =
     (case py_fmod (angle s + angular_speed s * dt) (2 * pi) of
        Inl e \<Rightarrow> Inl e
      | Inr a \<Rightarrow>
          (let new_lat = base_lat s + radius s * cos a;
               new_lng = base_lng s + radius s * sin a;
               lat1 = smooth_factor s * lat s + (1 - smooth_factor s) * new_lat;
               lng1 = smooth_factor s * lng s + (1 - smooth_factor s) * new_lng;
               noise_lat = (u_lat - 1 / 2) * noise_amplitude s;
               noise_lng = (u_lng - 1 / 2) * noise_amplitude s;
               lat2 = lat1 + noise_lat;
               lng2 = lng1 + noise_lng;
               raw_vel_lat = - radius s * angular_speed s * sin a;
               raw_vel_lng = radius s * angular_speed s * cos a;
               raw_acc_lat = - radius s * (angular_speed s) ^ 2 * cos a;
               raw_acc_lng = - radius s * (angular_speed s) ^ 2 * sin a
           in Inr (s\<lparr> angle := a,
                     lat := lat2,
                     lng := lng2,
                     vel_lat := smooth_factor s * vel_lat s + (1 - smooth_factor s) * raw_vel_lat,
                     vel_lng := smooth_factor s * vel_lng s + (1 - smooth_factor s) * raw_vel_lng,
                     vel_alt := 0,
                     acc_lat := smooth_factor s * acc_lat s + (1 - smooth_factor s) * raw_acc_lat,
                     acc_lng := smooth_factor s * acc_lng s + (1 - smooth_factor s) * raw_acc_lng,
                     acc_alt := 0,
                     target_lat := lat2,
                     target_lng := lng2,
                     target_alt := alt s \<rparr>)))"

text \<open>A value that \<open>random.random()\<close> can return.\<close>

definition sample :: "real \<Rightarrow> bool" where
  "sample u = (0 \<le> u \<and> u < 1)"

text \<open>
  A sequence of calls of \<open>update\<close> on one object, each call given as its \<open>dt\<close> and its two
  random draws. An exception ends the sequence, as it would end the caller's loop.
\<close>

fun updates :: "(real \<times> real \<times> real) list \<Rightarrow> drone_physics \<Rightarrow> error + drone_physics" where
  "updates [] s = Inr s"
| "updates ((dt, u_lat, u_lng) # cs) s =
     (case update dt u_lat u_lng s of
        Inl e \<Rightarrow> Inl e
      | Inr s' \<Rightarrow> updates cs s')"

text \<open>The calls of a sequence whose \<open>dt\<close> is not negative and whose draws are samples.\<close>

fun call_ok :: "real \<times> real \<times> real \<Rightarrow> bool" where
  "call_ok (dt, u_lat, u_lng) = (0 \<le> dt \<and> sample u_lat \<and> sample u_lng)"

text \<open>A sequence of calls none of which has a negative \<open>dt\<close>.\<close>

definition dts_nonneg :: "(real \<times> real \<times> real) list \<Rightarrow> bool" where
  "dts_nonneg cs = list_all (\<lambda>c. 0 \<le> fst c) cs"

text \<open>
  Two states that agree on the angle, on the velocity and on the acceleration, and on the
  three parameters from which \<open>update\<close> computes them.
\<close>

definition same_motion :: "drone_physics \<Rightarrow> drone_physics \<Rightarrow> bool" where
  "same_motion a b =
     (angle a = angle b \<and> angular_speed a = angular_speed b \<and> radius a = radius b
      \<and> smooth_factor a = smooth_factor b
      \<and> vel_lat a = vel_lat b \<and> vel_lng a = vel_lng b \<and> vel_alt a = vel_alt b
      \<and> acc_lat a = acc_lat b \<and> acc_lng a = acc_lng b \<and> acc_alt a = acc_alt b)"

text \<open>
  The effect of \<open>advance(dt)\<close> in the words of the specification, for comparison with
  \<open>update\<close>: given the new angle and the noise added on each axis, the ideal circular
  position at the new angle is the centre plus radius times (cos, sin); each position axis
  becomes 0.95 times its previous value plus 0.05 times the ideal value, plus the noise;
  velocity and acceleration are smoothed in the same way, without noise, toward
  radius * angularSpeed * (-sin, cos) and radius * angularSpeed^2 * (-cos, -sin), with
  vertical components smoothed toward zero; the target is the resulting position and the
  altitude.
\<close>

definition advance_spec :: "real \<Rightarrow> real \<Rightarrow> real \<Rightarrow> drone_physics \<Rightarrow> drone_physics" where
  "advance_spec new_angle n_lat n_lng s =
     (let ideal_lat = base_lat s + radius s * cos new_angle;
          ideal_lng = base_lng s + radius s * sin new_angle;
          p_lat = 95 / 100 * lat s + 5 / 100 * ideal_lat + n_lat;
          p_lng = 95 / 100 * lng s + 5 / 100 * ideal_lng + n_lng
      in s\<lparr> angle := new_angle,
             lat := p_lat,
             lng := p_lng,
             vel_lat := 95 / 100 * vel_lat s
                        + 5 / 100 * (radius s * angular_speed s * (- sin new_angle)),
             vel_lng := 95 / 100 * vel_lng s
                        + 5 / 100 * (radius s * angular_speed s * cos new_angle),
             vel_alt := 95 / 100 * vel_alt s + 5 / 100 * 0,
             acc_lat := 95 / 100 * acc_lat s
                        + 5 / 100 * (radius s * (angular_speed s) ^ 2 * (- cos new_angle)),
             acc_lng := 95 / 100 * acc_lng s
                        + 5 / 100 * (radius s * (angular_speed s) ^ 2 * (- sin new_angle)),
             acc_alt := 95 / 100 * acc_alt s + 5 / 100 * 0,
             target_lat := p_lat,
             target_lng := p_lng,
             target_alt := alt s \<rparr>)"

text \<open>
  The distance of the position from the centre of the circle, in the plane of latitude
  and longitude (degrees).
\<close>

definition dist_center :: "drone_physics \<Rightarrow> real" where
  "dist_center s = sqrt ((lat s - base_lat s)\<^sup>2 + (lng s - base_lng s)\<^sup>2)"

text \<open>
  The distance of the position from the point of the circle at the current angle.
\<close>

definition dist_ideal :: "drone_physics \<Rightarrow> real" where
  "dist_ideal s =
     sqrt ((lat s - (base_lat s + radius s * cos (angle s)))\<^sup>2
           + (lng s - (base_lng s + radius s * sin (angle s)))\<^sup>2)"

text \<open>
  A list of pairs of random draws, each a value that \<open>random.random()\<close> can return.
\<close>

definition draws_ok :: "(real \<times> real) list \<Rightarrow> bool" where
  "draws_ok us = list_all (\<lambda>d. sample (fst d) \<and> sample (snd d)) us"

text \<open>
  Repeated calls \<open>update(0)\<close>, one for each pair of draws.
\<close>

definition hold_still :: "(real \<times> real) list \<Rightarrow> (real \<times> real \<times> real) list" where
  "hold_still us = map (\<lambda>d. (0, fst d, snd d)) us"

text \<open>The wrapped angle that \<open>update\<close> computes, as a total function.\<close>

definition wrap_angle :: "real \<Rightarrow> real" where
  "wrap_angle x = x - 2 * pi * of_int \<lfloor>x / (2 * pi)\<rfloor>"

section \<open>The remainder on IEEE doubles\<close>

text \<open>
  The line \<open>self.angle = (self.angle + self.angular_speed * dt) % (2.0 * math.pi)\<close> as the
  interpreter evaluates it. A double is the real number it denotes; every arithmetic
  operation returns the exact result rounded to the nearest double, ties to the even
  significand. \<open>round_double\<close> is that rounding for results in the normal range (53
  significant bits; overflow and subnormal results do not occur in what is evaluated
  here).
\<close>

definition round_half_even :: "real \<Rightarrow> int" where
  "round_half_even q =
     (let f = \<lfloor>q\<rfloor>; d = q - of_int f
      in if d < 1 / 2 then f else if 1 / 2 < d then f + 1 else if even f then f else f + 1)"

definition round_double :: "real \<Rightarrow> real" where
  "round_double x =
     (if x = 0 then 0
      else (let e = \<lfloor>log 2 \<bar>x\<bar>\<rfloor>; ulp = 2 powr (of_int e - 52)
            in ulp * of_int (round_half_even (x / ulp))))"

text \<open>
  C's \<open>fmod\<close>: the remainder of the division truncated toward zero. Its result is always
  a double, so it is not rounded.
\<close>

definition c_fmod :: "real \<Rightarrow> real \<Rightarrow> real" where
  "c_fmod x y = x - y * of_int (if 0 \<le> x / y then \<lfloor>x / y\<rfloor> else \<lceil>x / y\<rceil>)"

text \<open>
  The interpreter's \<open>%\<close> on two floats (\<open>float_rem\<close>): \<open>fmod\<close>, and when the remainder is
  not zero and its sign differs from the sign of the divisor, the divisor is added to
  it, which is a floating-point addition. A zero remainder is returned as zero.
\<close>

definition float_rem :: "real \<Rightarrow> real \<Rightarrow> error + real" where
  "float_rem vx wx =
     (if wx = 0 then Inl ZeroDivisionError
      else (let m = c_fmod vx wx
            in if m \<noteq> 0
               then (if (wx < 0) \<noteq> (m < 0) then Inr (round_double (m + wx)) else Inr m)
               else Inr 0))"




section \<open>The connection server: class DroneSimulator\<close>

text \<open>
  The dictionaries that the handler builds and passes to \<open>json.dumps\<close>: an object is the
  list of its keys and values in insertion order. The serialisation to text is not
  modelled; a frame is the dictionary that is serialised.
\<close>

datatype jval = JStr string | JNum real | JObj "(string \<times> jval) list"

text \<open>The value under the key \<open>type\<close> of a frame.\<close>

fun frame_type :: "jval \<Rightarrow> jval option" where
  "frame_type (JObj kvs) = map_of kvs ''type''"
| "frame_type _ = None"

text \<open>The attributes that \<open>DroneSimulator.__init__\<close> assigns.\<close>

record drone_simulator =
  port :: int
  drone_id :: string
  base_latitude :: real
  base_longitude :: real
  base_altitude :: real
  physics_update_interval :: real

definition DroneSimulator_init :: "int \<Rightarrow> string \<Rightarrow> drone_simulator" where
  "DroneSimulator_init p d =
     \<lparr> port = p,
       drone_id = d,
       base_latitude = 53218282 / 1000000,
       base_longitude = 63658686 / 1000000,
       base_altitude = 120,
       physics_update_interval = 1 / 100 \<rparr>"

text \<open>The lines that the handler prints, one constructor for each \<open>print\<close> of the source.\<close>

datatype log_line =
    Incoming string
  | Established string
  | DisconnectedDuringPhysics string
  | ErrorInPhysicsLoop error
  | Received string
  | InvalidJSON string
  | Disconnected string
  | ErrorHandlingMessages error
  | ErrorDuringHandling error

text \<open>
  The state of one call of \<open>handle_client\<close>: the local \<open>drone_physics\<close> and \<open>last_time\<close>,
  the frames passed to \<open>websocket.send\<close> so far in the order of the calls, the lines
  printed so far, whether each of the two coroutines is still inside its loop, and whether
  \<open>handle_client\<close> has returned, which is when its local \<open>drone_physics\<close> is dropped.
\<close>

record conn =
  physics :: drone_physics
  last_time :: real
  sent :: "jval list"
  printed :: "log_line list"
  physics_loop_running :: bool
  message_handler_running :: bool
  returned :: bool

text \<open>
  What the environment does to a connection. Each event is one stretch of a coroutine
  between two suspension points, with the values the environment supplies in it:
  \<^item> \<open>Tick now u_lat u_lng timestamp r\<close>: one iteration of \<open>physics_loop\<close>, in which
    \<open>time.time()\<close> returns \<open>now\<close>, the two calls of \<open>random.random()\<close> return \<open>u_lat\<close> and
    \<open>u_lng\<close>, \<open>datetime.now(timezone.utc).isoformat()\<close> returns \<open>timestamp\<close>, and
    \<open>websocket.send\<close> returns (\<open>Inr ()\<close>) or raises (\<open>Inl e\<close>);
  \<^item> \<open>Inbound message r\<close>: one iteration of the \<open>async for\<close> of \<open>message_handler\<close>, in which
    the connection yields \<open>message\<close> and \<open>json.loads\<close> returns (\<open>Inr data\<close>) or raises;
  \<^item> \<open>RecvEnd\<close>: the \<open>async for\<close> ends because the connection was closed normally;
  \<^item> \<open>RecvRaise e\<close>: the \<open>async for\<close> raises \<open>e\<close>.
\<close>

datatype event =
    Tick real real real string "error + unit"
  | Inbound string "error + jval"
  | RecvEnd
  | RecvRaise error

definition welcome_msg :: "drone_simulator \<Rightarrow> jval" where
  "welcome_msg self =
     JObj [(''type'', JStr ''info''),
           (''message'', JStr ''Connected to drone simulator''),
           (''drone_id'', JStr (drone_id self))]"

definition gps_update :: "drone_simulator \<Rightarrow> drone_physics \<Rightarrow> string \<Rightarrow> jval" where
  "gps_update self drone_physics timestamp =
     JObj [(''type'', JStr ''gps''),
           (''drone_id'', JStr (drone_id self)),
           (''latitude'', JNum (lat drone_physics)),
           (''longitude'', JNum (lng drone_physics)),
           (''altitude'', JNum (alt drone_physics)),
           (''velocity'', JObj [(''lat'', JNum (vel_lat drone_physics)),
                                (''lng'', JNum (vel_lng drone_physics)),
                                (''alt'', JNum (vel_alt drone_physics))]),
           (''acceleration'', JObj [(''lat'', JNum (acc_lat drone_physics)),
                                    (''lng'', JNum (acc_lng drone_physics)),
                                    (''alt'', JNum (acc_alt drone_physics))]),
           (''target'', JObj [(''lat'', JNum (target_lat drone_physics)),
                              (''lng'', JNum (target_lng drone_physics)),
                              (''alt'', JNum (target_alt drone_physics))]),
           (''timestamp'', JStr timestamp)]"

text \<open>
  \<open>handle_client\<close> up to the \<open>await asyncio.gather(...)\<close>: the model is constructed, the
  welcome frame is passed to \<open>websocket.send\<close>, and if that returns, \<open>last_time\<close> is set to
  the reading \<open>t0\<close> of the clock and both coroutines are started. If the send raises, the
  outer \<open>except\<close> clauses print and \<open>handle_client\<close> returns (\<open>last_time\<close> is never assigned
  then, and never read).
\<close>

definition handle_client :: "drone_simulator \<Rightarrow> string \<Rightarrow> error + unit \<Rightarrow> real \<Rightarrow> conn" where
  "handle_client self client_addr welcome_result t0 =
     (let drone_physics =
            DronePhysics_init (base_latitude self) (base_longitude self) (base_altitude self);
          c = \<lparr> physics = drone_physics,
                last_time = t0,
                sent = [welcome_msg self],
                printed = [Incoming client_addr],
                physics_loop_running = False,
                message_handler_running = False,
                returned = False \<rparr>
      in case welcome_result of
           Inl e \<Rightarrow>
             c\<lparr> printed := printed c
                   @ [if e = ConnectionClosed then Disconnected client_addr
                      else ErrorDuringHandling e],
                returned := True \<rparr>
         | Inr _ \<Rightarrow>
             c\<lparr> printed := printed c @ [Established client_addr],
                physics_loop_running := True,
                message_handler_running := True \<rparr>)"

text \<open>
  What \<open>physics_loop\<close> does when an exception is raised in the body of its loop: it prints
  and leaves the loop.
\<close>

definition physics_loop_except :: "string \<Rightarrow> error \<Rightarrow> conn \<Rightarrow> conn" where
  "physics_loop_except client_addr e c =
     c\<lparr> printed := printed c
           @ [if e = ConnectionClosed then DisconnectedDuringPhysics client_addr
              else ErrorInPhysicsLoop e],
        physics_loop_running := False \<rparr>"

text \<open>
  One iteration of the \<open>while True\<close> of \<open>physics_loop\<close>. The elapsed time is taken from the
  clock, the model is advanced, the telemetry frame is built from the advanced model and
  passed to \<open>websocket.send\<close>; then the coroutine sleeps until the next iteration.
\<close>

definition physics_loop :: "drone_simulator \<Rightarrow> string \<Rightarrow> real \<Rightarrow> real \<Rightarrow> real \<Rightarrow> string
    \<Rightarrow> error + unit \<Rightarrow> conn \<Rightarrow> conn" where
  "physics_loop self client_addr current_time u_lat u_lng timestamp send_result c =
     (let dt = current_time - last_time c;
          c1 = c\<lparr> last_time := current_time \<rparr>
      in case update dt u_lat u_lng (physics c1) of
           Inl e \<Rightarrow> physics_loop_except client_addr e c1
         | Inr p \<Rightarrow>
             (let c2 = c1\<lparr> physics := p, sent := sent c1 @ [gps_update self p timestamp] \<rparr>
              in case send_result of
                   Inr _ \<Rightarrow> c2
                 | Inl e \<Rightarrow> physics_loop_except client_addr e c2))"

text \<open>
  What \<open>message_handler\<close> does when an exception leaves its \<open>async for\<close>: it prints and
  returns.
\<close>

definition message_handler_except :: "string \<Rightarrow> error \<Rightarrow> conn \<Rightarrow> conn" where
  "message_handler_except client_addr e c =
     c\<lparr> printed := printed c
           @ [if e = ConnectionClosed then Disconnected client_addr
              else ErrorHandlingMessages e],
        message_handler_running := False \<rparr>"

text \<open>
  One iteration of the \<open>async for\<close> of \<open>message_handler\<close>, after the wait of 100 ms: the
  message is parsed; \<open>JSONDecodeError\<close> is caught inside the loop, any other exception
  leaves the loop.
\<close>

definition message_handler :: "string \<Rightarrow> string \<Rightarrow> error + jval \<Rightarrow> conn \<Rightarrow> conn" where
  "message_handler client_addr message loads_result c =
     (case loads_result of
        Inr data \<Rightarrow> c\<lparr> printed := printed c @ [Received message] \<rparr>
      | Inl e \<Rightarrow>
          if e = JSONDecodeError then c\<lparr> printed := printed c @ [InvalidJSON message] \<rparr>
          else message_handler_except client_addr e c)"

text \<open>
  \<open>asyncio.gather(physics_loop(), message_handler(), return_exceptions=True)\<close> completes
  when both coroutines have finished, and \<open>handle_client\<close> returns then. The source calls
  nothing that cancels a coroutine.
\<close>

definition gather :: "conn \<Rightarrow> conn" where
  "gather c =
     (if \<not> physics_loop_running c \<and> \<not> message_handler_running c
      then c\<lparr> returned := True \<rparr> else c)"

text \<open>
  One event on a connection. An event reaches a coroutine only while that coroutine is
  inside its loop, and nothing happens once \<open>handle_client\<close> has returned.
\<close>

fun step :: "drone_simulator \<Rightarrow> string \<Rightarrow> event \<Rightarrow> conn \<Rightarrow> conn" where
  "step self client_addr (Tick current_time u_lat u_lng timestamp send_result) c =
     (if returned c \<or> \<not> physics_loop_running c then c
      else gather (physics_loop self client_addr current_time u_lat u_lng timestamp send_result c))"
| "step self client_addr (Inbound message loads_result) c =
     (if returned c \<or> \<not> message_handler_running c then c
      else gather (message_handler client_addr message loads_result c))"
| "step self client_addr RecvEnd c =
     (if returned c \<or> \<not> message_handler_running c then c
      else gather (c\<lparr> message_handler_running := False \<rparr>))"
| "step self client_addr (RecvRaise e) c =
     (if returned c \<or> \<not> message_handler_running c then c
      else gather (message_handler_except client_addr e c))"

text \<open>A connection after a sequence of events.\<close>

fun run :: "drone_simulator \<Rightarrow> string \<Rightarrow> event list \<Rightarrow> conn \<Rightarrow> conn" where
  "run self client_addr [] c = c"
| "run self client_addr (ev # evs) c = run self client_addr evs (step self client_addr ev c)"

text \<open>Frames by the value of their key \<open>type\<close>.\<close>

definition is_info :: "jval \<Rightarrow> bool" where
  "is_info f = (frame_type f = Some (JStr ''info''))"

definition is_gps :: "jval \<Rightarrow> bool" where
  "is_gps f = (frame_type f = Some (JStr ''gps''))"

definition is_error :: "jval \<Rightarrow> bool" where
  "is_error f = (frame_type f = Some (JStr ''error''))"

section \<open>Basic facts about update\<close>

lemma py_fmod_2pi: "py_fmod x (2 * pi) = Inr (wrap_angle x)"
  by (simp add: py_fmod_def wrap_angle_def)

lemma wrap_angle_range: "0 \<le> wrap_angle x \<and> wrap_angle x < 2 * pi"
proof -
  define n :: real where "n = of_int \<lfloor>x / (2 * pi)\<rfloor>"
  have p: "0 < 2 * pi" by simp
  have lo: "n \<le> x / (2 * pi)" unfolding n_def by linarith
  have hi: "x / (2 * pi) < n + 1" unfolding n_def by linarith
  from lo p have "n * (2 * pi) \<le> x"
    by (simp only: pos_le_divide_eq)
  moreover from hi p have "x < (n + 1) * (2 * pi)"
    by (simp only: pos_divide_less_eq)
  moreover have "wrap_angle x = x - 2 * pi * n"
    by (simp add: wrap_angle_def n_def)
  ultimately show ?thesis
    by (simp add: algebra_simps)
qed

lemma wrap_angle_id: "0 \<le> x \<Longrightarrow> x < 2 * pi \<Longrightarrow> wrap_angle x = x"
proof -
  assume a: "0 \<le> x" "x < 2 * pi"
  have "\<lfloor>x / (2 * pi)\<rfloor> = 0"
    using a by (simp add: floor_eq_iff)
  then show ?thesis by (simp add: wrap_angle_def)
qed

lemma update_Inr:
  "update dt u_lat u_lng s =
     Inr (s\<lparr> angle := wrap_angle (angle s + angular_speed s * dt),
            lat := smooth_factor s * lat s
                   + (1 - smooth_factor s)
                     * (base_lat s + radius s * cos (wrap_angle (angle s + angular_speed s * dt)))
                   + (u_lat - 1 / 2) * noise_amplitude s,
            lng := smooth_factor s * lng s
                   + (1 - smooth_factor s)
                     * (base_lng s + radius s * sin (wrap_angle (angle s + angular_speed s * dt)))
                   + (u_lng - 1 / 2) * noise_amplitude s,
            vel_lat := smooth_factor s * vel_lat s
                       + (1 - smooth_factor s)
                         * (- radius s * angular_speed s
                            * sin (wrap_angle (angle s + angular_speed s * dt))),
            vel_lng := smooth_factor s * vel_lng s
                       + (1 - smooth_factor s)
                         * (radius s * angular_speed s
                            * cos (wrap_angle (angle s + angular_speed s * dt))),
            vel_alt := 0,
            acc_lat := smooth_factor s * acc_lat s
                       + (1 - smooth_factor s)
                         * (- radius s * (angular_speed s) ^ 2
                            * cos (wrap_angle (angle s + angular_speed s * dt))),
            acc_lng := smooth_factor s * acc_lng s
                       + (1 - smooth_factor s)
                         * (- radius s * (angular_speed s) ^ 2
                            * sin (wrap_angle (angle s + angular_speed s * dt))),
            acc_alt := 0,
            target_lat := smooth_factor s * lat s
                   + (1 - smooth_factor s)
                     * (base_lat s + radius s * cos (wrap_angle (angle s + angular_speed s * dt)))
                   + (u_lat - 1 / 2) * noise_amplitude s,
            target_lng := smooth_factor s * lng s
                   + (1 - smooth_factor s)
                     * (base_lng s + radius s * sin (wrap_angle (angle s + angular_speed s * dt)))
                   + (u_lng - 1 / 2) * noise_amplitude s,
            target_alt := alt s \<rparr>)"
  by (simp add: update_def py_fmod_2pi Let_def)

lemma update_total: "\<exists>s'. update dt u_lat u_lng s = Inr s'"
  by (simp add: update_Inr)

lemma update_consts:
  assumes "update dt u_lat u_lng s = Inr s'"
  shows "base_lat s' = base_lat s" "base_lng s' = base_lng s"
    "angular_speed s' = angular_speed s" "radius s' = radius s" "alt s' = alt s"
    "smooth_factor s' = smooth_factor s" "noise_amplitude s' = noise_amplitude s"
  using assms by (auto simp: update_Inr)

lemma update_angle:
  assumes "update dt u_lat u_lng s = Inr s'"
  shows "angle s' = wrap_angle (angle s + angular_speed s * dt)"
  using assms by (auto simp: update_Inr)

lemma update_vertical:
  assumes "update dt u_lat u_lng s = Inr s'"
  shows "vel_alt s' = 0" "acc_alt s' = 0" "target_alt s' = alt s"
  using assms by (auto simp: update_Inr)

lemma update_target:
  assumes "update dt u_lat u_lng s = Inr s'"
  shows "target_lat s' = lat s'" "target_lng s' = lng s'"
  using assms by (auto simp: update_Inr)

lemma updates_total: "\<exists>s'. updates cs s = Inr s'"
proof (induction cs arbitrary: s)
  case Nil
  show ?case by simp
next
  case (Cons c cs)
  obtain dt u v where c: "c = (dt, u, v)" by (cases c)
  obtain s1 where s1: "update dt u v s = Inr s1" using update_total by blast
  from Cons.IH [of s1] show ?case by (simp add: c s1)
qed

lemma updates_snoc:
  "updates (cs @ [(dt, u, v)]) s =
     (case updates cs s of Inl e \<Rightarrow> Inl e | Inr s1 \<Rightarrow> update dt u v s1)"
proof (induction cs arbitrary: s)
  case Nil
  show ?case by (simp split: sum.splits)
next
  case (Cons c cs)
  obtain dt' u' v' where c: "c = (dt', u', v')" by (cases c)
  show ?case by (simp add: c Cons.IH split: sum.splits)
qed

lemma updates_consts:
  assumes "updates cs s = Inr s'"
  shows "base_lat s' = base_lat s \<and> base_lng s' = base_lng s
    \<and> angular_speed s' = angular_speed s \<and> radius s' = radius s \<and> alt s' = alt s
    \<and> smooth_factor s' = smooth_factor s \<and> noise_amplitude s' = noise_amplitude s"
  using assms
proof (induction cs arbitrary: s)
  case Nil
  then show ?case by simp
next
  case (Cons c cs)
  obtain dt u v where c: "c = (dt, u, v)" by (cases c)
  obtain s1 where s1: "update dt u v s = Inr s1" using update_total by blast
  with Cons.prems c have "updates cs s1 = Inr s'" by simp
  from Cons.IH [OF this] update_consts [OF s1] show ?case by simp
qed

lemma init_consts:
  "base_lat (DronePhysics_init clat clng calt) = clat"
  "base_lng (DronePhysics_init clat clng calt) = clng"
  "angle (DronePhysics_init clat clng calt) = 0"
  "angular_speed (DronePhysics_init clat clng calt) = 15 / 100"
  "radius (DronePhysics_init clat clng calt) = 8 / 10000"
  "alt (DronePhysics_init clat clng calt) = calt"
  "smooth_factor (DronePhysics_init clat clng calt) = 95 / 100"
  "noise_amplitude (DronePhysics_init clat clng calt) = 1 / 1000000"
  "vel_alt (DronePhysics_init clat clng calt) = 0"
  "acc_alt (DronePhysics_init clat clng calt) = 0"
  by (simp_all add: DronePhysics_init_def Let_def)

lemma init_motion:
  "lat (DronePhysics_init clat clng calt) = clat + 8 / 10000"
  "lng (DronePhysics_init clat clng calt) = clng"
  "vel_lat (DronePhysics_init clat clng calt) = 0"
  "vel_lng (DronePhysics_init clat clng calt) = 8 / 10000 * (15 / 100)"
  "acc_lat (DronePhysics_init clat clng calt) = - (8 / 10000) * (15 / 100) ^ 2"
  "acc_lng (DronePhysics_init clat clng calt) = 0"
  "target_lat (DronePhysics_init clat clng calt) = clat + 8 / 10000"
  "target_lng (DronePhysics_init clat clng calt) = clng"
  "target_alt (DronePhysics_init clat clng calt) = calt"
  by (simp_all add: DronePhysics_init_def Let_def)

lemma updates_angle_range:
  assumes "updates cs s = Inr s'" and "0 \<le> angle s \<and> angle s < 2 * pi"
  shows "0 \<le> angle s' \<and> angle s' < 2 * pi"
  using assms
proof (induction cs arbitrary: s)
  case Nil
  then show ?case by simp
next
  case (Cons c cs)
  obtain dt u v where c: "c = (dt, u, v)" by (cases c)
  obtain s1 where s1: "update dt u v s = Inr s1" using update_total by blast
  with Cons.prems c have r: "updates cs s1 = Inr s'" by simp
  have "0 \<le> angle s1 \<and> angle s1 < 2 * pi"
    using update_angle [OF s1] wrap_angle_range by simp
  from Cons.IH [OF r this] show ?case .
qed

lemma updates_vertical:
  assumes "updates cs s = Inr s'" and "vel_alt s = 0 \<and> acc_alt s = 0"
  shows "vel_alt s' = 0 \<and> acc_alt s' = 0"
  using assms
proof (induction cs arbitrary: s)
  case Nil
  then show ?case by simp
next
  case (Cons c cs)
  obtain dt u v where c: "c = (dt, u, v)" by (cases c)
  obtain s1 where s1: "update dt u v s = Inr s1" using update_total by blast
  with Cons.prems c have r: "updates cs s1 = Inr s'" by simp
  from Cons.IH [OF r] update_vertical [OF s1] show ?case by simp
qed

section \<open>The angle\<close>

text \<open>
  C4: after every sequence of calls of \<open>update\<close> with \<open>dt\<close> not negative, on a freshly
  constructed model, the sequence has returned and the angle is at least 0 and below
  \<open>2 * pi\<close>.
\<close>

theorem angle_in_range_after_updates:
  assumes "dts_nonneg cs"
  shows "\<exists>s'. updates cs (DronePhysics_init clat clng calt) = Inr s'
    \<and> 0 \<le> angle s' \<and> angle s' < 2 * pi"
proof -
  obtain s' where s': "updates cs (DronePhysics_init clat clng calt) = Inr s'"
    using updates_total by blast
  have "0 \<le> angle (DronePhysics_init clat clng calt)
    \<and> angle (DronePhysics_init clat clng calt) < 2 * pi"
    by (simp add: init_consts)
  from updates_angle_range [OF s' this] s' show ?thesis by blast
qed

theorem angle_in_range_after_updates_witness:
  "dts_nonneg [(1, 1 / 2, 1 / 2), (0, 1 / 4, 3 / 4)]
   \<and> (\<exists>s'. updates [(1, 1 / 2, 1 / 2), (0, 1 / 4, 3 / 4)] (DronePhysics_init 0 0 100) = Inr s'
         \<and> 0 \<le> angle s' \<and> angle s' < 2 * pi)"
proof -
  have h: "dts_nonneg [(1, 1 / 2, 1 / 2), (0, 1 / 4, 3 / 4)]"
    by (simp add: dts_nonneg_def)
  from h angle_in_range_after_updates [OF h, of 0 0 100] show ?thesis by blast
qed

section \<open>The altitude\<close>

text \<open>
  C5: after every sequence of calls of \<open>update\<close> with \<open>dt\<close> not negative, the altitude is
  the constant given at construction, and the vertical components of the velocity and of
  the acceleration are zero.
\<close>

theorem altitude_constant_vertical_zero:
  assumes "dts_nonneg cs"
  shows "\<exists>s'. updates cs (DronePhysics_init clat clng calt) = Inr s'
    \<and> alt s' = calt \<and> vel_alt s' = 0 \<and> acc_alt s' = 0"
proof -
  obtain s' where s': "updates cs (DronePhysics_init clat clng calt) = Inr s'"
    using updates_total by blast
  have a: "alt s' = calt"
    using updates_consts [OF s'] by (simp add: init_consts)
  have "vel_alt (DronePhysics_init clat clng calt) = 0
    \<and> acc_alt (DronePhysics_init clat clng calt) = 0"
    by (simp add: init_consts)
  from updates_vertical [OF s' this] a s' show ?thesis by blast
qed

theorem altitude_constant_vertical_zero_witness:
  "dts_nonneg [(1 / 100, 1 / 2, 1 / 2), (2, 0, 9 / 10)]
   \<and> (\<exists>s'. updates [(1 / 100, 1 / 2, 1 / 2), (2, 0, 9 / 10)] (DronePhysics_init 0 0 100) = Inr s'
         \<and> alt s' = 100 \<and> vel_alt s' = 0 \<and> acc_alt s' = 0)"
proof -
  have h: "dts_nonneg [(1 / 100, 1 / 2, 1 / 2), (2, 0, 9 / 10)]"
    by (simp add: dts_nonneg_def)
  from h altitude_constant_vertical_zero [OF h, of 0 0 100] show ?thesis by blast
qed

section \<open>The noise does not reach the angle, the velocity or the acceleration\<close>

lemma update_same_motion:
  assumes "same_motion a b"
    and "update dt u v a = Inr a'" and "update dt u' v' b = Inr b'"
  shows "same_motion a' b'"
  using assms by (auto simp: update_Inr same_motion_def)

lemma updates_same_motion:
  assumes "map fst cs1 = map fst cs2" and "same_motion a b"
    and "updates cs1 a = Inr a'" and "updates cs2 b = Inr b'"
  shows "same_motion a' b'"
  using assms
proof (induction cs1 arbitrary: cs2 a b)
  case Nil
  then show ?case by simp
next
  case (Cons c1 cs1)
  from Cons.prems(1) obtain c2 cs2' where cs2: "cs2 = c2 # cs2'"
    and f: "fst c1 = fst c2" and r: "map fst cs1 = map fst cs2'"
    by (cases cs2) auto
  obtain dt u v where c1: "c1 = (dt, u, v)" by (cases c1)
  obtain u' v' where c2: "c2 = (dt, u', v')" using f c1 by (cases c2) auto
  obtain a1 where a1: "update dt u v a = Inr a1" using update_total by blast
  obtain b1 where b1: "update dt u' v' b = Inr b1" using update_total by blast
  have m: "same_motion a1 b1"
    by (rule update_same_motion [OF Cons.prems(2) a1 b1])
  have ra: "updates cs1 a1 = Inr a'" using Cons.prems(3) c1 a1 by simp
  have rb: "updates cs2' b1 = Inr b'" using Cons.prems(4) cs2 c2 b1 by simp
  show ?case by (rule Cons.IH [OF r m ra rb])
qed

lemma update_noise_fields:
  assumes "update dt u v s = Inr a" and "update dt u' v' s = Inr b"
  shows "b = a\<lparr>lat := lat b, lng := lng b, target_lat := target_lat b, target_lng := target_lng b\<rparr>"
  using assms by (auto simp: update_Inr)

text \<open>
  C8: two runs from the same constructor arguments, with the same sequence of \<open>dt\<close> and
  any random draws, both return, and their states have the same angle, the same velocity
  and the same acceleration. Within one call, two choices of the draws give states that
  differ at most in \<open>lat\<close>, \<open>lng\<close>, \<open>target_lat\<close> and \<open>target_lng\<close>.
\<close>

theorem noise_changes_position_only:
  assumes "map fst cs1 = map fst cs2"
  shows "(\<exists>s1 s2. updates cs1 (DronePhysics_init clat clng calt) = Inr s1
            \<and> updates cs2 (DronePhysics_init clat clng calt) = Inr s2
            \<and> angle s1 = angle s2
            \<and> vel_lat s1 = vel_lat s2 \<and> vel_lng s1 = vel_lng s2 \<and> vel_alt s1 = vel_alt s2
            \<and> acc_lat s1 = acc_lat s2 \<and> acc_lng s1 = acc_lng s2 \<and> acc_alt s1 = acc_alt s2)
    \<and> (\<exists>a b. update dt u v s = Inr a \<and> update dt u' v' s = Inr b
            \<and> b = a\<lparr>lat := lat b, lng := lng b,
                     target_lat := target_lat b, target_lng := target_lng b\<rparr>)"
proof -
  obtain s1 where s1: "updates cs1 (DronePhysics_init clat clng calt) = Inr s1"
    using updates_total by blast
  obtain s2 where s2: "updates cs2 (DronePhysics_init clat clng calt) = Inr s2"
    using updates_total by blast
  have "same_motion (DronePhysics_init clat clng calt) (DronePhysics_init clat clng calt)"
    by (simp add: same_motion_def)
  from updates_same_motion [OF assms this s1 s2] have m: "same_motion s1 s2" .
  obtain a where a: "update dt u v s = Inr a" using update_total by blast
  obtain b where b: "update dt u' v' s = Inr b" using update_total by blast
  from m s1 s2 a b update_noise_fields [OF a b] show ?thesis
    unfolding same_motion_def by blast
qed

theorem noise_changes_position_only_witness:
  "map fst [(1, 1 / 10, 9 / 10), (2, 0, 0 :: real)] = map fst [(1 :: real, 9 / 10, 1 / 10), (2, 1 / 2, 1 / 3 :: real)]
   \<and> (\<exists>s1 s2. updates [(1, 1 / 10, 9 / 10), (2, 0, 0)] (DronePhysics_init 0 0 100) = Inr s1
            \<and> updates [(1, 9 / 10, 1 / 10), (2, 1 / 2, 1 / 3)] (DronePhysics_init 0 0 100) = Inr s2
            \<and> angle s1 = angle s2
            \<and> vel_lat s1 = vel_lat s2 \<and> vel_lng s1 = vel_lng s2 \<and> vel_alt s1 = vel_alt s2
            \<and> acc_lat s1 = acc_lat s2 \<and> acc_lng s1 = acc_lng s2 \<and> acc_alt s1 = acc_alt s2)
   \<and> (\<exists>a b. update 0 0 0 (DronePhysics_init 0 0 100) = Inr a
            \<and> update 0 (1 / 2) (1 / 2) (DronePhysics_init 0 0 100) = Inr b
            \<and> b = a\<lparr>lat := lat b, lng := lng b,
                     target_lat := target_lat b, target_lng := target_lng b\<rparr>)"
proof -
  have h: "map fst [(1, 1 / 10, 9 / 10), (2, 0, 0 :: real)]
    = map fst [(1 :: real, 9 / 10, 1 / 10), (2, 1 / 2, 1 / 3 :: real)]"
    by simp
  from h noise_changes_position_only [OF h, of 0 0 100 0 0 0 "DronePhysics_init 0 0 100" "1 / 2" "1 / 2"]
  show ?thesis by blast
qed

section \<open>A single call of update\<close>

lemma wrap_angle_shift: "\<exists>k::int. wrap_angle x = x - 2 * pi * of_int k"
  unfolding wrap_angle_def by blast

lemma sample_noise_bound:
  assumes "sample u" and "0 \<le> amp"
  shows "\<bar>(u - 1 / 2) * amp\<bar> \<le> amp / 2"
proof -
  from assms(1) have "\<bar>u - 1 / 2\<bar> \<le> 1 / 2"
    unfolding sample_def by linarith
  then have "\<bar>u - 1 / 2\<bar> * amp \<le> 1 / 2 * amp"
    using assms(2) by (rule mult_right_mono)
  then show ?thesis
    using assms(2) by (simp add: abs_mult)
qed

text \<open>
  C1: on every state that construction followed by calls of \<open>update\<close> reaches, and for
  every \<open>dt\<close> that is not negative and every two random draws, \<open>update\<close> returns the
  state the specification describes: the new angle is the old angle plus
  \<open>angular_speed * dt\<close> shifted by a multiple of \<open>2 * pi\<close> into the interval from 0 to
  \<open>2 * pi\<close>; the noise added to the latitude is the first draw minus one half, times the
  amplitude, and the noise added to the longitude is the second draw minus one half,
  times the amplitude, each at most half the amplitude in absolute value; and all fields
  are as \<open>advance_spec\<close> gives them for that angle and that noise.
\<close>

theorem update_refines_advance_spec:
  assumes "updates cs (DronePhysics_init clat clng calt) = Inr s"
    and "0 \<le> dt" and "sample u_lat" and "sample u_lng"
  shows "\<exists>new_angle.
           0 \<le> new_angle \<and> new_angle < 2 * pi
           \<and> (\<exists>k::int. new_angle = angle s + angular_speed s * dt - 2 * pi * of_int k)
           \<and> \<bar>(u_lat - 1 / 2) * noise_amplitude s\<bar> \<le> noise_amplitude s / 2
           \<and> \<bar>(u_lng - 1 / 2) * noise_amplitude s\<bar> \<le> noise_amplitude s / 2
           \<and> update dt u_lat u_lng s
               = Inr (advance_spec new_angle
                        ((u_lat - 1 / 2) * noise_amplitude s)
                        ((u_lng - 1 / 2) * noise_amplitude s) s)"
proof -
  let ?a = "wrap_angle (angle s + angular_speed s * dt)"
  let ?n_lat = "(u_lat - 1 / 2) * noise_amplitude s"
  let ?n_lng = "(u_lng - 1 / 2) * noise_amplitude s"
  have sf: "smooth_factor s = 95 / 100" and na: "noise_amplitude s = 1 / 1000000"
    using updates_consts [OF assms(1)] by (simp_all add: init_consts)
  have "vel_alt (DronePhysics_init clat clng calt) = 0
    \<and> acc_alt (DronePhysics_init clat clng calt) = 0"
    by (simp add: init_consts)
  from updates_vertical [OF assms(1) this]
  have va: "vel_alt s = 0" and aa: "acc_alt s = 0" by simp_all
  have amp: "0 \<le> noise_amplitude s" by (simp add: na)
  have r: "0 \<le> ?a \<and> ?a < 2 * pi" by (rule wrap_angle_range)
  have k: "\<exists>k::int. ?a = angle s + angular_speed s * dt - 2 * pi * of_int k"
    by (rule wrap_angle_shift)
  have n1: "\<bar>?n_lat\<bar> \<le> noise_amplitude s / 2"
    by (rule sample_noise_bound [OF assms(3) amp])
  have n2: "\<bar>?n_lng\<bar> \<le> noise_amplitude s / 2"
    by (rule sample_noise_bound [OF assms(4) amp])
  have e: "update dt u_lat u_lng s = Inr (advance_spec ?a ?n_lat ?n_lng s)"
    by (simp add: update_Inr advance_spec_def Let_def sf va aa)
  from r k n1 n2 e show ?thesis by blast
qed

theorem update_refines_advance_spec_witness:
  "updates [(1, 1 / 2, 1 / 2)] (DronePhysics_init 0 0 100)
     = Inr (advance_spec (15 / 100) 0 0 (DronePhysics_init 0 0 100))
   \<and> (0::real) \<le> 2 \<and> sample 0 \<and> sample (3 / 4)
   \<and> (\<exists>new_angle.
           0 \<le> new_angle \<and> new_angle < 2 * pi
           \<and> (\<exists>k::int. new_angle = 15 / 100 + 15 / 100 * 2 - 2 * pi * of_int k)
           \<and> update 2 0 (3 / 4) (advance_spec (15 / 100) 0 0 (DronePhysics_init 0 0 100))
               = Inr (advance_spec new_angle (- (1 / 2000000)) (1 / 4000000)
                       (advance_spec (15 / 100) 0 0 (DronePhysics_init 0 0 100))))"
proof -
  let ?s = "advance_spec (15 / 100) 0 0 (DronePhysics_init 0 0 100)"
  have w: "wrap_angle (3 / 20) = 3 / 20"
  proof (rule wrap_angle_id)
    show "(0::real) \<le> 3 / 20" by simp
    have "(3 / 20 :: real) < 2 * 2" by simp
    also have "\<dots> \<le> 2 * pi" using pi_ge_two by simp
    finally show "(3 / 20 :: real) < 2 * pi" .
  qed
  have h1: "updates [(1, 1 / 2, 1 / 2)] (DronePhysics_init 0 0 100) = Inr ?s"
    by (simp add: update_Inr init_consts w advance_spec_def Let_def DronePhysics_init_def)
  have h2: "(0::real) \<le> 2" by simp
  have h3: "sample 0" by (simp add: sample_def)
  have h4: "sample (3 / 4)" by (simp add: sample_def)
  have f: "angle ?s = 15 / 100" "angular_speed ?s = 15 / 100"
    "(0 - 1 / 2) * noise_amplitude ?s = - (1 / 2000000)"
    "(3 / 4 - 1 / 2) * noise_amplitude ?s = 1 / 4000000"
    by (simp_all add: advance_spec_def Let_def DronePhysics_init_def)
  from update_refines_advance_spec [OF h1 h2 h3 h4]
  obtain a where a: "0 \<le> a" "a < 2 * pi"
    "\<exists>k::int. a = angle ?s + angular_speed ?s * 2 - 2 * pi * of_int k"
    "update 2 0 (3 / 4) ?s
       = Inr (advance_spec a ((0 - 1 / 2) * noise_amplitude ?s)
                ((3 / 4 - 1 / 2) * noise_amplitude ?s) ?s)"
    by blast
  from a(3) have a3: "\<exists>k::int. a = 15 / 100 + 15 / 100 * 2 - 2 * pi * of_int k"
    by (simp only: f)
  from a(4) have a4: "update 2 0 (3 / 4) ?s
       = Inr (advance_spec a (- (1 / 2000000)) (1 / 4000000) ?s)"
    by (simp only: f)
  from h1 h2 h3 h4 a(1) a(2) a3 a4 show ?thesis by blast
qed

section \<open>Distances in the plane\<close>

lemma sqrt_scale: "0 \<le> a \<Longrightarrow> sqrt ((a * x)\<^sup>2 + (a * y)\<^sup>2) = a * sqrt (x\<^sup>2 + y\<^sup>2)"
proof -
  assume a: "0 \<le> a"
  have "(a * x)\<^sup>2 + (a * y)\<^sup>2 = a\<^sup>2 * (x\<^sup>2 + y\<^sup>2)"
    by (simp add: power_mult_distrib distrib_left)
  then have "sqrt ((a * x)\<^sup>2 + (a * y)\<^sup>2) = sqrt (a\<^sup>2) * sqrt (x\<^sup>2 + y\<^sup>2)"
    by (simp only: real_sqrt_mult)
  with a show ?thesis by simp
qed

lemma blend_norm:
  assumes "0 \<le> a" and "0 \<le> b"
  shows "sqrt ((a * x1 + b * y1 + n1)\<^sup>2 + (a * x2 + b * y2 + n2)\<^sup>2)
    \<le> a * sqrt (x1\<^sup>2 + x2\<^sup>2) + b * sqrt (y1\<^sup>2 + y2\<^sup>2) + sqrt (n1\<^sup>2 + n2\<^sup>2)"
proof -
  have "sqrt ((a * x1 + b * y1 + n1)\<^sup>2 + (a * x2 + b * y2 + n2)\<^sup>2)
    \<le> sqrt ((a * x1 + b * y1)\<^sup>2 + (a * x2 + b * y2)\<^sup>2) + sqrt (n1\<^sup>2 + n2\<^sup>2)"
    by (rule real_sqrt_sum_squares_triangle_ineq)
  also have "sqrt ((a * x1 + b * y1)\<^sup>2 + (a * x2 + b * y2)\<^sup>2)
    \<le> sqrt ((a * x1)\<^sup>2 + (a * x2)\<^sup>2) + sqrt ((b * y1)\<^sup>2 + (b * y2)\<^sup>2)"
    by (rule real_sqrt_sum_squares_triangle_ineq)
  finally show ?thesis
    by (simp add: sqrt_scale assms)
qed

lemma circle_norm: "0 \<le> r \<Longrightarrow> sqrt ((r * cos a)\<^sup>2 + (r * sin a)\<^sup>2) = r"
  by (simp add: sqrt_scale)

lemma noise_norm:
  assumes "\<bar>n1\<bar> \<le> amp / 2" and "\<bar>n2\<bar> \<le> amp / 2"
  shows "sqrt (n1\<^sup>2 + n2\<^sup>2) \<le> amp * sqrt 2 / 2"
proof -
  have amp: "0 \<le> amp" using assms(1) by linarith
  have "n1\<^sup>2 \<le> (amp / 2)\<^sup>2"
    using assms(1) amp by (simp add: abs_le_square_iff [symmetric])
  moreover have "n2\<^sup>2 \<le> (amp / 2)\<^sup>2"
    using assms(2) amp by (simp add: abs_le_square_iff [symmetric])
  ultimately have "n1\<^sup>2 + n2\<^sup>2 \<le> amp\<^sup>2 / 2"
    by (simp add: power_divide)
  then have "sqrt (n1\<^sup>2 + n2\<^sup>2) \<le> sqrt (amp\<^sup>2 / 2)"
    by (rule real_sqrt_le_mono)
  also have "sqrt (amp\<^sup>2 / 2) = amp / sqrt 2"
    using amp by (simp add: real_sqrt_divide)
  also have "amp / sqrt 2 = amp * sqrt 2 / 2"
    by (simp add: real_div_sqrt field_simps)
  finally show ?thesis .
qed

section \<open>The position stays near the circle\<close>

lemma update_position:
  assumes "update dt u v s = Inr s'"
  shows "lat s' = smooth_factor s * lat s
           + (1 - smooth_factor s) * (base_lat s + radius s * cos (angle s'))
           + (u - 1 / 2) * noise_amplitude s"
    and "lng s' = smooth_factor s * lng s
           + (1 - smooth_factor s) * (base_lng s + radius s * sin (angle s'))
           + (v - 1 / 2) * noise_amplitude s"
  using assms by (auto simp: update_Inr)

lemma update_dist_center:
  assumes u: "update dt u v s = Inr s'"
    and "sample u" and "sample v"
    and sf: "smooth_factor s = 95 / 100" and r: "0 \<le> radius s" and amp: "0 \<le> noise_amplitude s"
  shows "dist_center s'
    \<le> 95 / 100 * dist_center s + 5 / 100 * radius s + noise_amplitude s * sqrt 2 / 2"
proof -
  let ?a = "angle s'"
  let ?n1 = "(u - 1 / 2) * noise_amplitude s"
  let ?n2 = "(v - 1 / 2) * noise_amplitude s"
  have e1: "lat s' - base_lat s'
    = 95 / 100 * (lat s - base_lat s) + 5 / 100 * (radius s * cos ?a) + ?n1"
    unfolding update_position(1) [OF u] update_consts(1) [OF u] sf by algebra
  have e2: "lng s' - base_lng s'
    = 95 / 100 * (lng s - base_lng s) + 5 / 100 * (radius s * sin ?a) + ?n2"
    unfolding update_position(2) [OF u] update_consts(2) [OF u] sf by algebra
  have "dist_center s'
    \<le> 95 / 100 * sqrt ((lat s - base_lat s)\<^sup>2 + (lng s - base_lng s)\<^sup>2)
      + 5 / 100 * sqrt ((radius s * cos ?a)\<^sup>2 + (radius s * sin ?a)\<^sup>2)
      + sqrt (?n1\<^sup>2 + ?n2\<^sup>2)"
    unfolding dist_center_def e1 e2 by (rule blend_norm) simp_all
  also have "sqrt ((radius s * cos ?a)\<^sup>2 + (radius s * sin ?a)\<^sup>2) = radius s"
    by (rule circle_norm [OF r])
  also have "sqrt (?n1\<^sup>2 + ?n2\<^sup>2) \<le> noise_amplitude s * sqrt 2 / 2"
    by (rule noise_norm) (rule sample_noise_bound [OF _ amp], fact)+
  finally show ?thesis by (simp add: dist_center_def)
qed

lemma init_dist_center: "dist_center (DronePhysics_init clat clng calt) = 8 / 10000"
  by (simp add: dist_center_def DronePhysics_init_def Let_def)

lemma updates_dist_center:
  assumes "updates cs s = Inr s'" and "list_all call_ok cs"
    and "smooth_factor s = 95 / 100" and "0 \<le> radius s" and "0 \<le> noise_amplitude s"
    and "dist_center s \<le> radius s + 10 * sqrt 2 * noise_amplitude s"
  shows "dist_center s' \<le> radius s' + 10 * sqrt 2 * noise_amplitude s'"
  using assms
proof (induction cs arbitrary: s)
  case Nil
  then show ?case by simp
next
  case (Cons c cs)
  obtain dt u v where c: "c = (dt, u, v)" by (cases c)
  obtain s1 where s1: "update dt u v s = Inr s1" using update_total by blast
  have r: "updates cs s1 = Inr s'" using Cons.prems(1) c s1 by simp
  have ok: "sample u" "sample v" "list_all call_ok cs" using Cons.prems(2) c by simp_all
  have k: "smooth_factor s1 = 95 / 100" "radius s1 = radius s"
    "noise_amplitude s1 = noise_amplitude s"
    using update_consts [OF s1] Cons.prems(3) by simp_all
  have "dist_center s1
    \<le> 95 / 100 * dist_center s + 5 / 100 * radius s + noise_amplitude s * sqrt 2 / 2"
    by (rule update_dist_center [OF s1 ok(1) ok(2) Cons.prems(3) Cons.prems(4) Cons.prems(5)])
  moreover have "noise_amplitude s * sqrt 2 / 2 = 5 / 100 * (10 * sqrt 2 * noise_amplitude s)"
    by simp
  ultimately have "dist_center s1 \<le> radius s + 10 * sqrt 2 * noise_amplitude s"
    using Cons.prems(6) by linarith
  then have "dist_center s1 \<le> radius s1 + 10 * sqrt 2 * noise_amplitude s1"
    by (simp only: k)
  from Cons.IH [OF r ok(3) k(1) _ _ this] Cons.prems(4) Cons.prems(5) show ?case
    by (simp add: k)
qed

lemma wrap_angle_0: "wrap_angle 0 = 0"
  by (simp add: wrap_angle_def)

text \<open>
  C3, as stated, fails: three calls \<open>update(0)\<close> on a fresh model, each with the first
  draw 0.9 and the second 0.5, leave the position at distance 0.000801141 from the
  centre, beyond radius plus noise amplitude, which is 0.000801. The noise of each call
  is added to the stored position, so the filter accumulates it.
\<close>

theorem position_bound_counterexample:
  "list_all call_ok [(0, 9 / 10, 1 / 2), (0, 9 / 10, 1 / 2), (0, 9 / 10, 1 / 2)]
   \<and> (\<exists>s'. updates [(0, 9 / 10, 1 / 2), (0, 9 / 10, 1 / 2), (0, 9 / 10, 1 / 2)]
              (DronePhysics_init 0 0 100) = Inr s'
         \<and> dist_center s' = 801141 / 1000000000
         \<and> radius s' + noise_amplitude s' = 801 / 1000000
         \<and> \<not> dist_center s' \<le> radius s' + noise_amplitude s')"
  by (simp add: sample_def update_Inr wrap_angle_0 DronePhysics_init_def Let_def dist_center_def)

text \<open>
  C3, amended: after every sequence of calls of \<open>update\<close> with \<open>dt\<close> not negative and
  random draws in the half-open interval from 0 to 1, on a freshly constructed model, the
  position lies within distance \<open>radius + 10 * sqrt 2 * noise_amplitude\<close> of the centre.
\<close>

theorem position_within_radius_plus_noise_gain:
  assumes "list_all call_ok cs"
  shows "\<exists>s'. updates cs (DronePhysics_init clat clng calt) = Inr s'
    \<and> dist_center s' \<le> radius s' + 10 * sqrt 2 * noise_amplitude s'"
proof -
  let ?i = "DronePhysics_init clat clng calt"
  obtain s' where s': "updates cs ?i = Inr s'" using updates_total by blast
  have "dist_center ?i \<le> radius ?i + 10 * sqrt 2 * noise_amplitude ?i"
    by (simp add: init_dist_center init_consts)
  from updates_dist_center [OF s' assms _ _ _ this] have "dist_center s' \<le> radius s' + 10 * sqrt 2 * noise_amplitude s'"
    by (simp add: init_consts)
  with s' show ?thesis by blast
qed

theorem position_within_radius_plus_noise_gain_witness:
  "list_all call_ok [(1 / 100, 9 / 10, 1 / 10), (1 / 50, 0, 1 / 2)]
   \<and> (\<exists>s'. updates [(1 / 100, 9 / 10, 1 / 10), (1 / 50, 0, 1 / 2)] (DronePhysics_init 0 0 100) = Inr s'
         \<and> dist_center s' \<le> radius s' + 10 * sqrt 2 * noise_amplitude s')"
proof -
  have h: "list_all call_ok [(1 / 100, 9 / 10, 1 / 10), (1 / 50, 0, 1 / 2)]"
    by (simp add: sample_def)
  from h position_within_radius_plus_noise_gain [OF h, of 0 0 100] show ?thesis by blast
qed

section \<open>Repeated calls with dt = 0\<close>

lemma update_hold_angle:
  assumes "update 0 u v s = Inr s'" and "0 \<le> angle s" and "angle s < 2 * pi"
  shows "angle s' = angle s"
  using update_angle [OF assms(1)] wrap_angle_id [OF assms(2) assms(3)] by simp

lemma update_hold_dist_ideal:
  assumes u: "update 0 u v s = Inr s'" and a: "0 \<le> angle s" "angle s < 2 * pi"
    and sf: "smooth_factor s = 95 / 100"
  shows "dist_ideal s'
    = sqrt ((95 / 100 * (lat s - (base_lat s + radius s * cos (angle s)))
             + 0 * 0 + (u - 1 / 2) * noise_amplitude s)\<^sup>2
          + (95 / 100 * (lng s - (base_lng s + radius s * sin (angle s)))
             + 0 * 0 + (v - 1 / 2) * noise_amplitude s)\<^sup>2)"
proof -
  have h: "angle s' = angle s" by (rule update_hold_angle [OF u a])
  have e1: "lat s' - (base_lat s' + radius s' * cos (angle s'))
    = 95 / 100 * (lat s - (base_lat s + radius s * cos (angle s)))
      + 0 * 0 + (u - 1 / 2) * noise_amplitude s"
    unfolding update_position(1) [OF u] update_consts(1) [OF u] update_consts(4) [OF u] h sf
    by algebra
  have e2: "lng s' - (base_lng s' + radius s' * sin (angle s'))
    = 95 / 100 * (lng s - (base_lng s + radius s * sin (angle s)))
      + 0 * 0 + (v - 1 / 2) * noise_amplitude s"
    unfolding update_position(2) [OF u] update_consts(2) [OF u] update_consts(4) [OF u] h sf
    by algebra
  show ?thesis unfolding dist_ideal_def e1 e2 ..
qed

lemma update_hold_contract:
  assumes u: "update 0 (1 / 2) (1 / 2) s = Inr s'" and a: "0 \<le> angle s" "angle s < 2 * pi"
    and sf: "smooth_factor s = 95 / 100"
  shows "dist_ideal s' = 95 / 100 * dist_ideal s"
proof -
  have "dist_ideal s'
    = sqrt ((95 / 100 * (lat s - (base_lat s + radius s * cos (angle s))))\<^sup>2
          + (95 / 100 * (lng s - (base_lng s + radius s * sin (angle s))))\<^sup>2)"
    unfolding update_hold_dist_ideal [OF u a sf] by simp
  also have "\<dots> = 95 / 100 * dist_ideal s"
    unfolding dist_ideal_def by (rule sqrt_scale) simp
  finally show ?thesis .
qed

lemma update_hold_bound:
  assumes u: "update 0 u v s = Inr s'" and a: "0 \<le> angle s" "angle s < 2 * pi"
    and sf: "smooth_factor s = 95 / 100" and amp: "0 \<le> noise_amplitude s"
    and "sample u" and "sample v"
  shows "dist_ideal s' \<le> 95 / 100 * dist_ideal s + noise_amplitude s * sqrt 2 / 2"
proof -
  let ?n1 = "(u - 1 / 2) * noise_amplitude s"
  let ?n2 = "(v - 1 / 2) * noise_amplitude s"
  have "dist_ideal s'
    = sqrt ((95 / 100 * (lat s - (base_lat s + radius s * cos (angle s))) + 0 * 0 + ?n1)\<^sup>2
          + (95 / 100 * (lng s - (base_lng s + radius s * sin (angle s))) + 0 * 0 + ?n2)\<^sup>2)"
    by (rule update_hold_dist_ideal [OF u a sf])
  also have "\<dots>
    \<le> 95 / 100 * dist_ideal s + 0 * sqrt (0\<^sup>2 + 0\<^sup>2) + sqrt (?n1\<^sup>2 + ?n2\<^sup>2)"
    unfolding dist_ideal_def by (rule blend_norm) simp_all
  also have "sqrt (?n1\<^sup>2 + ?n2\<^sup>2) \<le> noise_amplitude s * sqrt 2 / 2"
    by (rule noise_norm) (rule sample_noise_bound [OF _ amp], fact)+
  finally show ?thesis by simp
qed

lemma hold_still_bound:
  assumes "updates (hold_still us) s = Inr s'" and "draws_ok us"
    and "0 \<le> angle s" and "angle s < 2 * pi"
    and "smooth_factor s = 95 / 100" and "0 \<le> noise_amplitude s"
  shows "angle s' = angle s
    \<and> dist_ideal s' \<le> (95 / 100) ^ length us * dist_ideal s
        + (1 - (95 / 100) ^ length us) * (10 * sqrt 2 * noise_amplitude s)"
  using assms
proof (induction us arbitrary: s)
  case Nil
  then show ?case by (simp add: hold_still_def)
next
  case (Cons d us)
  obtain u v where d: "d = (u, v)" by (cases d)
  obtain s1 where s1: "update 0 u v s = Inr s1" using update_total by blast
  have r: "updates (hold_still us) s1 = Inr s'"
    using Cons.prems(1) d s1 by (simp add: hold_still_def)
  have ok: "sample u" "sample v" "draws_ok us"
    using Cons.prems(2) d by (simp_all add: draws_ok_def)
  have h: "angle s1 = angle s"
    by (rule update_hold_angle [OF s1 Cons.prems(3) Cons.prems(4)])
  have k: "smooth_factor s1 = 95 / 100" "noise_amplitude s1 = noise_amplitude s"
    using update_consts [OF s1] Cons.prems(5) by simp_all
  let ?q = "(95 / 100 :: real) ^ length us"
  let ?B = "10 * sqrt 2 * noise_amplitude s"
  have q: "0 \<le> ?q" by simp
  have b1: "dist_ideal s1 \<le> 95 / 100 * dist_ideal s + noise_amplitude s * sqrt 2 / 2"
    by (rule update_hold_bound [OF s1 Cons.prems(3) Cons.prems(4) Cons.prems(5)
          Cons.prems(6) ok(1) ok(2)])
  have ih: "angle s' = angle s1 \<and> dist_ideal s' \<le> ?q * dist_ideal s1 + (1 - ?q) * ?B"
    using Cons.IH [OF r ok(3)] Cons.prems(3) Cons.prems(4) Cons.prems(6) h k by simp
  have "?q * dist_ideal s1 \<le> ?q * (95 / 100 * dist_ideal s + noise_amplitude s * sqrt 2 / 2)"
    by (rule mult_left_mono [OF b1 q])
  with ih have "dist_ideal s' \<le> ?q * (95 / 100 * dist_ideal s + noise_amplitude s * sqrt 2 / 2)
      + (1 - ?q) * ?B"
    by linarith
  also have "\<dots> = (95 / 100) ^ length (d # us) * dist_ideal s
      + (1 - (95 / 100) ^ length (d # us)) * ?B"
    by (simp add: algebra_simps)
  finally show ?case using ih h by simp
qed

text \<open>
  C9: from every state that construction followed by calls of \<open>update\<close> reaches, repeated
  calls \<open>update(0)\<close> return, leave the angle as it was, and after \<open>n\<close> calls the distance
  between the position and the circle point at that angle is at most \<open>0.95 ^ n\<close> times
  the distance at the start plus \<open>(1 - 0.95 ^ n) * 10 * sqrt 2 * noise_amplitude\<close>. A call
  whose two draws are 0.5 adds no noise, and multiplies the offset from the circle point
  on each axis, and so the distance, by 0.95.
\<close>

theorem hold_still_converges:
  assumes "updates cs (DronePhysics_init clat clng calt) = Inr s" and "draws_ok us"
  shows "(\<exists>s'. updates (hold_still us) s = Inr s' \<and> angle s' = angle s
            \<and> dist_ideal s' \<le> (95 / 100) ^ length us * dist_ideal s
                + (1 - (95 / 100) ^ length us) * (10 * sqrt 2 * noise_amplitude s))
    \<and> (\<exists>s1. update 0 (1 / 2) (1 / 2) s = Inr s1 \<and> angle s1 = angle s
            \<and> lat s1 - (base_lat s1 + radius s1 * cos (angle s1))
                = 95 / 100 * (lat s - (base_lat s + radius s * cos (angle s)))
            \<and> lng s1 - (base_lng s1 + radius s1 * sin (angle s1))
                = 95 / 100 * (lng s - (base_lng s + radius s * sin (angle s)))
            \<and> dist_ideal s1 = 95 / 100 * dist_ideal s)"
proof -
  let ?i = "DronePhysics_init clat clng calt"
  have a: "0 \<le> angle s" "angle s < 2 * pi"
    using updates_angle_range [OF assms(1)] by (simp_all add: init_consts)
  have sf: "smooth_factor s = 95 / 100" and amp: "0 \<le> noise_amplitude s"
    using updates_consts [OF assms(1)] by (simp_all add: init_consts)
  obtain s' where s': "updates (hold_still us) s = Inr s'" using updates_total by blast
  obtain s1 where s1: "update 0 (1 / 2) (1 / 2) s = Inr s1" using update_total by blast
  have k: "base_lat s1 = base_lat s" "base_lng s1 = base_lng s" "radius s1 = radius s"
    using update_consts [OF s1] by simp_all
  have h: "angle s1 = angle s" by (rule update_hold_angle [OF s1 a])
  have e1: "lat s1 - (base_lat s1 + radius s1 * cos (angle s1))
                = 95 / 100 * (lat s - (base_lat s + radius s * cos (angle s)))"
    unfolding update_position(1) [OF s1] k h sf by algebra
  have e2: "lng s1 - (base_lng s1 + radius s1 * sin (angle s1))
                = 95 / 100 * (lng s - (base_lng s + radius s * sin (angle s)))"
    unfolding update_position(2) [OF s1] k h sf by algebra
  from hold_still_bound [OF s' assms(2) a sf amp] s'
    update_hold_contract [OF s1 a sf] s1 h e1 e2
  show ?thesis by blast
qed

theorem hold_still_converges_witness:
  "updates [(0, 9 / 10, 1 / 2)] (DronePhysics_init 0 0 100)
     = Inr (advance_spec 0 (4 / 10000000) 0 (DronePhysics_init 0 0 100))
   \<and> draws_ok [(0, 1 / 2), (3 / 4, 1 / 4)]
   \<and> dist_ideal (advance_spec 0 (4 / 10000000) 0 (DronePhysics_init 0 0 100)) = 4 / 10000000
   \<and> (\<exists>s'. updates (hold_still [(0, 1 / 2), (3 / 4, 1 / 4)])
              (advance_spec 0 (4 / 10000000) 0 (DronePhysics_init 0 0 100)) = Inr s'
         \<and> angle s' = 0
         \<and> dist_ideal s' \<le> (95 / 100) ^ 2 * (4 / 10000000)
              + (1 - (95 / 100) ^ 2) * (10 * sqrt 2 * (1 / 1000000)))
   \<and> (\<exists>s1. update 0 (1 / 2) (1 / 2)
              (advance_spec 0 (4 / 10000000) 0 (DronePhysics_init 0 0 100)) = Inr s1
         \<and> angle s1 = 0
         \<and> dist_ideal s1 = 95 / 100 * (4 / 10000000))"
proof -
  let ?s = "advance_spec 0 (4 / 10000000) 0 (DronePhysics_init 0 0 100)"
  have h1: "updates [(0, 9 / 10, 1 / 2)] (DronePhysics_init 0 0 100) = Inr ?s"
    by (simp add: update_Inr wrap_angle_0 advance_spec_def Let_def DronePhysics_init_def)
  have h2: "draws_ok [(0, 1 / 2), (3 / 4, 1 / 4)]"
    by (simp add: draws_ok_def sample_def)
  have d: "dist_ideal ?s = 4 / 10000000"
    by (simp add: dist_ideal_def advance_spec_def Let_def DronePhysics_init_def)
  have f: "angle ?s = 0" "noise_amplitude ?s = 1 / 1000000"
    by (simp_all add: advance_spec_def Let_def DronePhysics_init_def)
  have n: "length [(0 :: real, 1 / 2 :: real), (3 / 4, 1 / 4)] = 2" by simp
  from hold_still_converges [OF h1 h2]
  obtain s' s1 where
    a: "updates (hold_still [(0, 1 / 2), (3 / 4, 1 / 4)]) ?s = Inr s'" "angle s' = angle ?s"
      "dist_ideal s' \<le> (95 / 100) ^ length [(0 :: real, 1 / 2 :: real), (3 / 4, 1 / 4)] * dist_ideal ?s
        + (1 - (95 / 100) ^ length [(0 :: real, 1 / 2 :: real), (3 / 4, 1 / 4)])
          * (10 * sqrt 2 * noise_amplitude ?s)"
    and b: "update 0 (1 / 2) (1 / 2) ?s = Inr s1" "angle s1 = angle ?s"
      "dist_ideal s1 = 95 / 100 * dist_ideal ?s"
    by blast
  from a(2) b(2) have g1: "angle s' = 0" "angle s1 = 0" by (simp_all only: f)
  from a(3) have g2: "dist_ideal s' \<le> (95 / 100) ^ 2 * (4 / 10000000)
              + (1 - (95 / 100) ^ 2) * (10 * sqrt 2 * (1 / 1000000))"
    by (simp only: n d f)
  from b(3) have g3: "dist_ideal s1 = 95 / 100 * (4 / 10000000)" by (simp only: d)
  from h1 h2 d a(1) b(1) g1 g2 g3 show ?thesis by blast
qed

section \<open>The frames of a connection\<close>

lemma gps_update_is_gps: "is_gps (gps_update self p ts)"
  by (simp add: is_gps_def gps_update_def)

lemma welcome_msg_is_info: "is_info (welcome_msg self)"
  by (simp add: is_info_def welcome_msg_def)

lemma is_gps_not_info: "is_gps f \<Longrightarrow> \<not> is_info f"
  by (simp add: is_gps_def is_info_def)

lemma is_gps_not_error: "is_gps f \<Longrightarrow> \<not> is_error f"
  by (simp add: is_gps_def is_error_def)

lemma physics_loop_sent:
  "\<exists>g. is_gps g \<and> sent (physics_loop self a now u v ts r c) = sent c @ [g]"
proof -
  obtain p where p: "update (now - last_time c) u v (physics c) = Inr p"
    using update_total by blast
  show ?thesis
    by (cases r) (auto simp: physics_loop_def physics_loop_except_def Let_def p gps_update_is_gps)
qed

lemma gather_fields:
  "sent (gather c) = sent c" "printed (gather c) = printed c" "physics (gather c) = physics c"
  "last_time (gather c) = last_time c"
  "physics_loop_running (gather c) = physics_loop_running c"
  "message_handler_running (gather c) = message_handler_running c"
  by (simp_all add: gather_def)

lemma message_handler_fields:
  "sent (message_handler a m r c) = sent c"
  "physics (message_handler a m r c) = physics c"
  "last_time (message_handler a m r c) = last_time c"
  "physics_loop_running (message_handler a m r c) = physics_loop_running c"
  by (simp_all add: message_handler_def message_handler_except_def split: sum.splits)

lemma message_handler_except_fields:
  "sent (message_handler_except a e c) = sent c"
  "physics (message_handler_except a e c) = physics c"
  "last_time (message_handler_except a e c) = last_time c"
  "physics_loop_running (message_handler_except a e c) = physics_loop_running c"
  "\<not> message_handler_running (message_handler_except a e c)"
  by (simp_all add: message_handler_except_def)

lemma physics_loop_other:
  "message_handler_running (physics_loop self a now u v ts r c) = message_handler_running c"
proof -
  obtain p where p: "update (now - last_time c) u v (physics c) = Inr p"
    using update_total by blast
  show ?thesis
    by (cases r) (simp_all add: physics_loop_def physics_loop_except_def Let_def p)
qed

lemma no_new_frames: "xs = ys @ [] \<Longrightarrow> \<exists>gs. list_all is_gps gs \<and> xs = ys @ gs"
  by (rule exI [of _ "[]"]) simp

lemma step_sent:
  "\<exists>gs. list_all is_gps gs \<and> sent (step self a ev c) = sent c @ gs"
proof (cases ev)
  case (Tick now u v ts r)
  obtain g where g: "is_gps g" "sent (physics_loop self a now u v ts r c) = sent c @ [g]"
    using physics_loop_sent by blast
  show ?thesis
  proof (cases "returned c \<or> \<not> physics_loop_running c")
    case True
    then have "sent (step self a ev c) = sent c @ []" by (simp add: Tick)
    then show ?thesis by (rule no_new_frames)
  next
    case False
    then have "sent (step self a ev c) = sent c @ [g]" by (simp add: Tick gather_fields g)
    moreover have "list_all is_gps [g]" using g by simp
    ultimately show ?thesis by blast
  qed
next
  case (Inbound m r)
  have "sent (step self a ev c) = sent c @ []"
    by (simp add: Inbound gather_fields message_handler_fields)
  then show ?thesis by (rule no_new_frames)
next
  case RecvEnd
  have "sent (step self a ev c) = sent c @ []"
    by (simp add: RecvEnd gather_fields)
  then show ?thesis by (rule no_new_frames)
next
  case (RecvRaise e)
  have "sent (step self a ev c) = sent c @ []"
    by (simp add: RecvRaise gather_fields message_handler_except_fields)
  then show ?thesis by (rule no_new_frames)
qed

lemma run_sent:
  "\<exists>gs. list_all is_gps gs \<and> sent (run self a evs c) = sent c @ gs"
proof (induction evs arbitrary: c)
  case Nil
  have "sent (run self a [] c) = sent c @ []" by simp
  then show ?case by (rule no_new_frames)
next
  case (Cons ev evs)
  obtain g1 where g1: "list_all is_gps g1" "sent (step self a ev c) = sent c @ g1"
    using step_sent by blast
  obtain g2 where g2: "list_all is_gps g2"
    "sent (run self a evs (step self a ev c)) = sent (step self a ev c) @ g2"
    using Cons.IH by blast
  have "list_all is_gps (g1 @ g2)" using g1 g2 by simp
  moreover have "sent (run self a (ev # evs) c) = sent c @ (g1 @ g2)"
    using g1 g2 by simp
  ultimately show ?case by blast
qed

lemma handle_client_sent: "sent (handle_client self a w t0) = [welcome_msg self]"
  by (simp add: handle_client_def Let_def split: sum.splits)

text \<open>
  C6: after every sequence of events on an accepted connection, the frames passed to
  \<open>websocket.send\<close> are the welcome frame, of type \<open>info\<close>, with the message
  \<open>Connected to drone simulator\<close> and the drone identifier, followed by frames of type
  \<open>gps\<close> only; exactly one of the frames is of type \<open>info\<close>.
\<close>

theorem info_frame_first_then_gps:
  "\<exists>gs. sent (run self client_addr evs (handle_client self client_addr welcome_result t0))
          = welcome_msg self # gs
     \<and> is_info (welcome_msg self)
     \<and> welcome_msg self = JObj [(''type'', JStr ''info''),
                                 (''message'', JStr ''Connected to drone simulator''),
                                 (''drone_id'', JStr (drone_id self))]
     \<and> list_all is_gps gs
     \<and> length (filter is_info
          (sent (run self client_addr evs (handle_client self client_addr welcome_result t0)))) = 1"
proof -
  let ?c0 = "handle_client self client_addr welcome_result t0"
  obtain gs where gs: "list_all is_gps gs"
    "sent (run self client_addr evs ?c0) = sent ?c0 @ gs"
    using run_sent by blast
  have s: "sent (run self client_addr evs ?c0) = welcome_msg self # gs"
    using gs(2) by (simp add: handle_client_sent)
  have "filter is_info gs = []"
    using gs(1) by (induction gs) (auto dest: is_gps_not_info)
  then have "length (filter is_info (sent (run self client_addr evs ?c0))) = 1"
    by (simp add: s welcome_msg_is_info)
  with s gs(1) welcome_msg_is_info show ?thesis
    by (simp add: welcome_msg_def)
qed

theorem info_frame_first_then_gps_witness:
  "(let self = DroneSimulator_init 9002 ''drone-sim-1'';
        c = run self ''peer'' [Tick (1 / 100) (1 / 2) (1 / 2) ''t1'' (Inr ()),
                               Inbound ''not json'' (Inl JSONDecodeError),
                               Tick (2 / 100) (1 / 2) (1 / 2) ''t2'' (Inr ())]
              (handle_client self ''peer'' (Inr ()) 0)
    in length (sent c) = 3
       \<and> (\<exists>gs. sent c = welcome_msg self # gs \<and> list_all is_gps gs)
       \<and> length (filter is_info (sent c)) = 1)"
proof -
  define self where "self = DroneSimulator_init 9002 ''drone-sim-1''"
  define evs where "evs = [Tick (1 / 100) (1 / 2) (1 / 2) ''t1'' (Inr ()),
                               Inbound ''not json'' (Inl JSONDecodeError),
                               Tick (2 / 100) (1 / 2) (1 / 2) ''t2'' (Inr ())]"
  have n: "length (sent (run self ''peer'' evs (handle_client self ''peer'' (Inr ()) 0))) = 3"
    by (simp add: evs_def handle_client_def Let_def physics_loop_def message_handler_def
        update_Inr gather_def)
  from info_frame_first_then_gps [of self "''peer''" evs "Inr ()" 0] n
  show ?thesis
    unfolding Let_def self_def [symmetric] evs_def [symmetric] by blast
qed

section \<open>The two coroutines of a connection\<close>

lemma physics_loop_returned: "returned (physics_loop self a now u v ts r c) = returned c"
proof -
  obtain p where p: "update (now - last_time c) u v (physics c) = Inr p"
    using update_total by blast
  show ?thesis
    by (cases r) (simp_all add: physics_loop_def physics_loop_except_def Let_def p)
qed

lemma message_handler_returned: "returned (message_handler a m r c) = returned c"
  by (simp add: message_handler_def message_handler_except_def split: sum.splits)

lemma gather_returned:
  "returned (gather c)
     = (returned c \<or> (\<not> physics_loop_running c \<and> \<not> message_handler_running c))"
  by (simp add: gather_def)

lemma step_joined:
  assumes "returned c = (\<not> physics_loop_running c \<and> \<not> message_handler_running c)"
  shows "returned (step self a ev c)
    = (\<not> physics_loop_running (step self a ev c) \<and> \<not> message_handler_running (step self a ev c))"
proof (cases "returned c")
  case True
  then have "step self a ev c = c" by (cases ev) simp_all
  with assms show ?thesis by simp
next
  case False
  show ?thesis
  proof (cases ev)
    case (Tick now u v ts r)
    with False show ?thesis
      using assms by (simp add: gather_returned gather_fields physics_loop_returned)
  next
    case (Inbound m r)
    with False show ?thesis
      using assms by (simp add: gather_returned gather_fields message_handler_returned)
  next
    case RecvEnd
    with False show ?thesis
      using assms by (simp add: gather_returned gather_fields)
  next
    case (RecvRaise e)
    with False show ?thesis
      using assms
      by (simp add: gather_returned gather_fields message_handler_except_def)
  qed
qed

lemma run_joined:
  assumes "returned c = (\<not> physics_loop_running c \<and> \<not> message_handler_running c)"
  shows "returned (run self a evs c)
    = (\<not> physics_loop_running (run self a evs c) \<and> \<not> message_handler_running (run self a evs c))"
  using assms
proof (induction evs arbitrary: c)
  case Nil
  then show ?case by simp
next
  case (Cons ev evs)
  have "returned (step self a ev c)
    = (\<not> physics_loop_running (step self a ev c) \<and> \<not> message_handler_running (step self a ev c))"
    by (rule step_joined [OF Cons.prems])
  from Cons.IH [OF this] show ?case by simp
qed

lemma handle_client_joined:
  "returned (handle_client self a w t0)
    = (\<not> physics_loop_running (handle_client self a w t0)
       \<and> \<not> message_handler_running (handle_client self a w t0))"
  by (simp add: handle_client_def Let_def split: sum.splits)

lemma reachable_joined:
  "returned (run self a evs (handle_client self a w t0))
    = (\<not> physics_loop_running (run self a evs (handle_client self a w t0))
       \<and> \<not> message_handler_running (run self a evs (handle_client self a w t0)))"
  by (rule run_joined [OF handle_client_joined])

lemma step_invalid_json:
  assumes "message_handler_running c" and "\<not> returned c"
  shows "step self a (Inbound m (Inl JSONDecodeError)) c = c\<lparr>printed := printed c @ [InvalidJSON m]\<rparr>"
  using assms by (simp add: message_handler_def gather_def)

lemma step_tick_ok:
  assumes "physics_loop_running c" and "\<not> returned c"
  shows "\<exists>g. is_gps g \<and> sent (step self a (Tick now u v ts (Inr ())) c) = sent c @ [g]
    \<and> physics_loop_running (step self a (Tick now u v ts (Inr ())) c)"
proof -
  obtain p where p: "update (now - last_time c) u v (physics c) = Inr p"
    using update_total by blast
  have "sent (step self a (Tick now u v ts (Inr ())) c) = sent c @ [gps_update self p ts]"
    using assms by (simp add: physics_loop_def Let_def p gather_fields)
  moreover have "physics_loop_running (step self a (Tick now u v ts (Inr ())) c)"
    using assms by (simp add: physics_loop_def Let_def p gather_fields)
  ultimately show ?thesis using gps_update_is_gps by blast
qed

lemma list_all_gps_not_error: "list_all is_gps gs \<Longrightarrow> list_all (\<lambda>f. \<not> is_error f) gs"
  by (induction gs) (auto dest: is_gps_not_error)

lemma welcome_msg_not_error: "\<not> is_error (welcome_msg self)"
  by (simp add: is_error_def welcome_msg_def)

lemma run_append: "run self a (xs @ ys) c = run self a ys (run self a xs c)"
  by (induction xs arbitrary: c) simp_all

lemma reachable_no_error_frame:
  "list_all (\<lambda>f. \<not> is_error f) (sent (run self a evs (handle_client self a w t0)))"
proof -
  obtain gs where gs: "list_all is_gps gs"
    "sent (run self a evs (handle_client self a w t0)) = sent (handle_client self a w t0) @ gs"
    using run_sent by blast
  from gs(1) have "list_all (\<lambda>f. \<not> is_error f) gs" by (rule list_all_gps_not_error)
  then show ?thesis
    by (simp add: gs(2) handle_client_sent welcome_msg_not_error)
qed

lemma step_parse_error:
  assumes "message_handler_running c" and "\<not> returned c"
  shows "step self a (Inbound m (Inl e)) c
    = (if e = JSONDecodeError then c\<lparr>printed := printed c @ [InvalidJSON m]\<rparr>
       else c\<lparr>printed := printed c
                     @ [if e = ConnectionClosed then Disconnected a else ErrorHandlingMessages e],
              message_handler_running := False,
              returned := \<not> physics_loop_running c\<rparr>)"
  using assms by (simp add: message_handler_def message_handler_except_def gather_def)

text \<open>
  C7, as stated, fails: \<open>json.loads\<close> can fail on a text frame with an exception that is
  not \<open>JSONDecodeError\<close> (a \<open>RecursionError\<close> on deeply nested brackets, for one), which
  only the outer \<open>except\<close> of \<open>message_handler\<close> catches. The coroutine prints and ends,
  and the next malformed frame is neither read nor logged.
\<close>

theorem parse_failure_can_end_drain_counterexample:
  "(let self = DroneSimulator_init 9002 ''drone-sim-1'';
        c0 = handle_client self ''peer'' (Inr ()) 0;
        c1 = step self ''peer'' (Inbound ''nested'' (Inl OtherException)) c0;
        c2 = step self ''peer'' (Inbound ''not json'' (Inl JSONDecodeError)) c1
    in message_handler_running c0
       \<and> \<not> message_handler_running c1
       \<and> printed c1 = printed c0 @ [ErrorHandlingMessages OtherException]
       \<and> c2 = c1
       \<and> InvalidJSON ''not json'' \<notin> set (printed c2))"
  by (simp add: Let_def handle_client_def message_handler_def message_handler_except_def
      gather_def)

text \<open>
  C7, amended: on a connection whose welcome frame was sent and whose \<open>message_handler\<close>
  is running, an inbound frame on which \<open>json.loads\<close> raises changes nothing of the
  trajectory model and sends no frame, and a diagnostic is printed for it. If the
  exception is \<open>JSONDecodeError\<close>, nothing else changes: \<open>message_handler\<close> stays in its
  loop and \<open>handle_client\<close> does not return. If it is any other exception,
  \<open>message_handler\<close> ends, later inbound frames are not read, and \<open>handle_client\<close> returns
  exactly if \<open>physics_loop\<close> has ended too. In both cases \<open>physics_loop\<close> is running or not
  as it was, and if it was running, its next iteration passes one more frame of type
  \<open>gps\<close> to \<open>websocket.send\<close> and keeps running. Whatever events follow, no frame of type
  \<open>error\<close> is among the frames sent.
\<close>

theorem parse_failure_is_logged_and_dropped:
  assumes "c = run self client_addr evs (handle_client self client_addr (Inr ()) t0)"
    and "message_handler_running c"
  shows "step self client_addr (Inbound message (Inl e)) c
           = (if e = JSONDecodeError then c\<lparr>printed := printed c @ [InvalidJSON message]\<rparr>
              else c\<lparr>printed := printed c
                            @ [if e = ConnectionClosed then Disconnected client_addr
                               else ErrorHandlingMessages e],
                     message_handler_running := False,
                     returned := \<not> physics_loop_running c\<rparr>)
    \<and> sent (step self client_addr (Inbound message (Inl e)) c) = sent c
    \<and> physics (step self client_addr (Inbound message (Inl e)) c) = physics c
    \<and> message_handler_running (step self client_addr (Inbound message (Inl e)) c)
        = (e = JSONDecodeError)
    \<and> physics_loop_running (step self client_addr (Inbound message (Inl e)) c)
        = physics_loop_running c
    \<and> returned (step self client_addr (Inbound message (Inl e)) c)
        = (e \<noteq> JSONDecodeError \<and> \<not> physics_loop_running c)
    \<and> (e \<noteq> JSONDecodeError \<longrightarrow>
         step self client_addr (Inbound message' loads_result)
           (step self client_addr (Inbound message (Inl e)) c)
         = step self client_addr (Inbound message (Inl e)) c)
    \<and> (physics_loop_running c \<longrightarrow>
         (\<exists>g. is_gps g
            \<and> sent (step self client_addr (Tick now u_lat u_lng timestamp (Inr ()))
                      (step self client_addr (Inbound message (Inl e)) c))
                = sent c @ [g]
            \<and> physics_loop_running
                 (step self client_addr (Tick now u_lat u_lng timestamp (Inr ()))
                    (step self client_addr (Inbound message (Inl e)) c))))
    \<and> list_all (\<lambda>f. \<not> is_error f)
         (sent (run self client_addr evs'
                  (step self client_addr (Inbound message (Inl e)) c)))"
proof -
  let ?c0 = "handle_client self client_addr (Inr ()) t0"
  define c' where "c' = step self client_addr (Inbound message (Inl e)) c"
  have nr: "\<not> returned c"
    using reachable_joined [of self client_addr evs "Inr ()" t0] assms by simp
  have e: "c' = (if e = JSONDecodeError then c\<lparr>printed := printed c @ [InvalidJSON message]\<rparr>
              else c\<lparr>printed := printed c
                            @ [if e = ConnectionClosed then Disconnected client_addr
                               else ErrorHandlingMessages e],
                     message_handler_running := False,
                     returned := \<not> physics_loop_running c\<rparr>)"
    unfolding c'_def by (rule step_parse_error [OF assms(2) nr])
  have r: "sent c' = sent c" "physics c' = physics c"
    "message_handler_running c' = (e = JSONDecodeError)"
    "physics_loop_running c' = physics_loop_running c"
    "returned c' = (e \<noteq> JSONDecodeError \<and> \<not> physics_loop_running c)"
    unfolding e using assms(2) nr by simp_all
  have l: "e \<noteq> JSONDecodeError \<longrightarrow>
    step self client_addr (Inbound message' loads_result) c' = c'"
    using r(3) by simp
  have t: "physics_loop_running c \<longrightarrow>
         (\<exists>g. is_gps g
            \<and> sent (step self client_addr (Tick now u_lat u_lng timestamp (Inr ())) c') = sent c @ [g]
            \<and> physics_loop_running (step self client_addr (Tick now u_lat u_lng timestamp (Inr ())) c'))"
  proof
    assume p: "physics_loop_running c"
    then have p': "physics_loop_running c'" by (simp only: r)
    from p have nr': "\<not> returned c'" by (simp add: r)
    from step_tick_ok [OF p' nr', of self client_addr now u_lat u_lng timestamp]
    show "\<exists>g. is_gps g
            \<and> sent (step self client_addr (Tick now u_lat u_lng timestamp (Inr ())) c') = sent c @ [g]
            \<and> physics_loop_running (step self client_addr (Tick now u_lat u_lng timestamp (Inr ())) c')"
      by (simp only: r)
  qed
  have "run self client_addr evs' c'
    = run self client_addr (evs @ Inbound message (Inl e) # evs') ?c0"
    by (simp add: run_append assms(1) c'_def)
  then have n: "list_all (\<lambda>f. \<not> is_error f) (sent (run self client_addr evs' c'))"
    by (simp only: reachable_no_error_frame)
  from e r l t n show ?thesis unfolding c'_def by blast
qed

theorem parse_failure_is_logged_and_dropped_witness:
  "(let self = DroneSimulator_init 9002 ''drone-sim-1'';
        c = run self ''peer'' [Tick (1 / 100) (1 / 2) (1 / 2) ''t1'' (Inr ())]
              (handle_client self ''peer'' (Inr ()) 0);
        c' = step self ''peer'' (Inbound ''not json'' (Inl JSONDecodeError)) c;
        d' = step self ''peer'' (Inbound ''nested'' (Inl OtherException)) c
    in message_handler_running c \<and> physics_loop_running c
       \<and> c' = c\<lparr>printed := printed c @ [InvalidJSON ''not json'']\<rparr>
       \<and> message_handler_running c' \<and> \<not> returned c'
       \<and> (\<exists>g. is_gps g
             \<and> sent (step self ''peer'' (Tick (2 / 100) (1 / 4) (3 / 4) ''t2'' (Inr ())) c')
                 = sent c @ [g]
             \<and> physics_loop_running
                  (step self ''peer'' (Tick (2 / 100) (1 / 4) (3 / 4) ''t2'' (Inr ())) c'))
       \<and> list_all (\<lambda>f. \<not> is_error f)
            (sent (run self ''peer'' [Tick (2 / 100) (1 / 4) (3 / 4) ''t2'' (Inr ())] c'))
       \<and> OtherException \<noteq> JSONDecodeError
       \<and> d' = c\<lparr>printed := printed c @ [ErrorHandlingMessages OtherException],
                message_handler_running := False, returned := False\<rparr>
       \<and> step self ''peer'' (Inbound ''not json'' (Inl JSONDecodeError)) d' = d'
       \<and> (\<exists>g. is_gps g
             \<and> sent (step self ''peer'' (Tick (2 / 100) (1 / 4) (3 / 4) ''t2'' (Inr ())) d')
                 = sent c @ [g]
             \<and> physics_loop_running
                  (step self ''peer'' (Tick (2 / 100) (1 / 4) (3 / 4) ''t2'' (Inr ())) d')))"
proof -
  define self where "self = DroneSimulator_init 9002 ''drone-sim-1''"
  define c where "c = run self ''peer'' [Tick (1 / 100) (1 / 2) (1 / 2) ''t1'' (Inr ())]
              (handle_client self ''peer'' (Inr ()) 0)"
  define c' where "c' = step self ''peer'' (Inbound ''not json'' (Inl JSONDecodeError)) c"
  define d' where "d' = step self ''peer'' (Inbound ''nested'' (Inl OtherException)) c"
  have h2: "message_handler_running c"
    by (simp add: c_def handle_client_def Let_def gather_fields physics_loop_other)
  have h3: "physics_loop_running c"
    by (simp add: c_def handle_client_def Let_def gather_fields physics_loop_def update_Inr)
  have h4: "OtherException \<noteq> JSONDecodeError" by simp
  note a = parse_failure_is_logged_and_dropped [OF c_def h2,
      of "''not json''" JSONDecodeError "''x''" "Inl JSONDecodeError" "2 / 100" "1 / 4" "3 / 4" "''t2''"
         "[Tick (2 / 100) (1 / 4) (3 / 4) ''t2'' (Inr ())]", folded c'_def]
  note b = parse_failure_is_logged_and_dropped [OF c_def h2,
      of "''nested''" OtherException "''not json''" "Inl JSONDecodeError" "2 / 100" "1 / 4" "3 / 4" "''t2''"
         "[]", folded d'_def]
  have t: "physics_loop_running c = True" using h3 by simp
  have a1: "c' = c\<lparr>printed := printed c @ [InvalidJSON ''not json'']\<rparr>"
    using a [THEN conjunct1] by (simp only: simp_thms if_True)
  have a2: "message_handler_running c'"
    using a [THEN conjunct2, THEN conjunct2, THEN conjunct2, THEN conjunct1] by (simp only: simp_thms)
  have a3: "\<not> returned c'"
    using a [THEN conjunct2, THEN conjunct2, THEN conjunct2, THEN conjunct2, THEN conjunct2, THEN conjunct1] by (simp only: simp_thms)
  have a4: "list_all (\<lambda>f. \<not> is_error f)
            (sent (run self ''peer'' [Tick (2 / 100) (1 / 4) (3 / 4) ''t2'' (Inr ())] c'))"
    by (rule a [THEN conjunct2, THEN conjunct2, THEN conjunct2, THEN conjunct2, THEN conjunct2, THEN conjunct2, THEN conjunct2, THEN conjunct2])
  have a5: "\<exists>g. is_gps g
             \<and> sent (step self ''peer'' (Tick (2 / 100) (1 / 4) (3 / 4) ''t2'' (Inr ())) c')
                 = sent c @ [g]
             \<and> physics_loop_running
                  (step self ''peer'' (Tick (2 / 100) (1 / 4) (3 / 4) ''t2'' (Inr ())) c')"
    by (rule a [THEN conjunct2, THEN conjunct2, THEN conjunct2, THEN conjunct2, THEN conjunct2, THEN conjunct2, THEN conjunct2, THEN conjunct1, rule_format, OF h3])
  have b1: "d' = c\<lparr>printed := printed c @ [ErrorHandlingMessages OtherException],
                message_handler_running := False, returned := False\<rparr>"
    using b [THEN conjunct1] by (simp only: error.distinct if_False t simp_thms)
  have b2: "step self ''peer'' (Inbound ''not json'' (Inl JSONDecodeError)) d' = d'"
    by (rule b [THEN conjunct2, THEN conjunct2, THEN conjunct2, THEN conjunct2, THEN conjunct2, THEN conjunct2, THEN conjunct1, rule_format, OF h4])
  have b3: "\<exists>g. is_gps g
             \<and> sent (step self ''peer'' (Tick (2 / 100) (1 / 4) (3 / 4) ''t2'' (Inr ())) d')
                 = sent c @ [g]
             \<and> physics_loop_running
                  (step self ''peer'' (Tick (2 / 100) (1 / 4) (3 / 4) ''t2'' (Inr ())) d')"
    by (rule b [THEN conjunct2, THEN conjunct2, THEN conjunct2, THEN conjunct2, THEN conjunct2, THEN conjunct2, THEN conjunct2, THEN conjunct1, rule_format, OF h3])
  from h2 h3 h4 a1 a2 a3 a4 a5 b1 b2 b3 show ?thesis
    unfolding Let_def self_def [symmetric] c_def [symmetric] c'_def [symmetric]
      d'_def [symmetric]
    by blast
qed

lemma step_tick_other:
  "message_handler_running (step self a (Tick now u v ts r) c) = message_handler_running c"
  by (simp add: gather_fields physics_loop_other)

lemma step_drain_other:
  "physics_loop_running (step self a (Inbound m lr) c) = physics_loop_running c"
  "physics_loop_running (step self a RecvEnd c) = physics_loop_running c"
  "physics_loop_running (step self a (RecvRaise e) c) = physics_loop_running c"
  by (simp_all add: gather_fields message_handler_fields message_handler_except_fields)

lemma step_drain_physics:
  "physics (step self a (Inbound m lr) c) = physics c"
  "physics (step self a RecvEnd c) = physics c"
  "physics (step self a (RecvRaise e) c) = physics c"
  by (simp_all add: gather_fields message_handler_fields message_handler_except_fields)

text \<open>
  C2, as stated, fails: nothing cancels the other coroutine. When \<open>json.loads\<close> raises an
  exception other than \<open>JSONDecodeError\<close>, \<open>message_handler\<close> ends, and \<open>physics_loop\<close> is
  still running two iterations later, having sent two more frames. When \<open>websocket.send\<close>
  raises in \<open>physics_loop\<close>, that loop ends, and \<open>message_handler\<close> goes on to process the
  next two inbound frames.
\<close>

theorem other_activity_not_cancelled_counterexample:
  "(let self = DroneSimulator_init 9002 ''drone-sim-1'';
        c0 = handle_client self ''peer'' (Inr ()) 0;
        c1 = run self ''peer'' [Inbound ''nested'' (Inl OtherException)] c0;
        c2 = run self ''peer'' [Tick (1 / 100) (1 / 2) (1 / 2) ''t1'' (Inr ()),
                                Tick (2 / 100) (1 / 2) (1 / 2) ''t2'' (Inr ())] c1;
        d1 = run self ''peer'' [Tick (1 / 100) (1 / 2) (1 / 2) ''t1'' (Inl OtherException)] c0;
        d2 = run self ''peer'' [Inbound ''{}'' (Inr (JObj [])), Inbound ''1'' (Inr (JNum 1))] d1
    in \<not> message_handler_running c1 \<and> physics_loop_running c1
       \<and> physics_loop_running c2 \<and> \<not> returned c2 \<and> length (sent c2) = length (sent c1) + 2
       \<and> \<not> physics_loop_running d1 \<and> message_handler_running d1
       \<and> message_handler_running d2 \<and> \<not> returned d2
       \<and> printed d2 = printed d1 @ [Received ''{}'', Received ''1''])"
  by (simp add: Let_def handle_client_def message_handler_def message_handler_except_def
      physics_loop_def physics_loop_except_def update_Inr gather_def)

text \<open>
  C2, amended: on every accepted connection, \<open>handle_client\<close> has returned, releasing the
  trajectory model, exactly when both coroutines have ended; and no event of one
  coroutine ends the other: an iteration of \<open>physics_loop\<close> leaves \<open>message_handler\<close>
  running or not as it was, and an inbound frame, the end of the inbound stream or an
  exception from it leaves \<open>physics_loop\<close> running or not as it was.
\<close>

theorem activities_end_on_their_own:
  "returned (run self client_addr evs (handle_client self client_addr welcome_result t0))
     = (\<not> physics_loop_running
            (run self client_addr evs (handle_client self client_addr welcome_result t0))
        \<and> \<not> message_handler_running
            (run self client_addr evs (handle_client self client_addr welcome_result t0)))
   \<and> message_handler_running (step self client_addr (Tick now u_lat u_lng timestamp send_result) c)
       = message_handler_running c
   \<and> physics_loop_running (step self client_addr (Inbound message loads_result) c)
       = physics_loop_running c
   \<and> physics_loop_running (step self client_addr RecvEnd c) = physics_loop_running c
   \<and> physics_loop_running (step self client_addr (RecvRaise e) c) = physics_loop_running c"
  using reachable_joined [of self client_addr evs welcome_result t0]
  by (simp only: step_tick_other step_drain_other)

theorem activities_end_on_their_own_witness:
  "(let self = DroneSimulator_init 9002 ''drone-sim-1'';
        evs = [Tick (1 / 100) (1 / 2) (1 / 2) ''t1'' (Inl ConnectionClosed), RecvEnd];
        c = run self ''peer'' evs (handle_client self ''peer'' (Inr ()) 0);
        c0 = handle_client self ''peer'' (Inr ()) 0
    in returned c \<and> \<not> physics_loop_running c \<and> \<not> message_handler_running c
       \<and> message_handler_running c0
       \<and> message_handler_running
            (step self ''peer'' (Tick (1 / 100) (1 / 2) (1 / 2) ''t1'' (Inl ConnectionClosed)) c0)
       \<and> physics_loop_running c0
       \<and> physics_loop_running (step self ''peer'' (Inbound ''x'' (Inl OtherException)) c0)
       \<and> physics_loop_running (step self ''peer'' RecvEnd c0)
       \<and> physics_loop_running (step self ''peer'' (RecvRaise ConnectionClosed) c0))"
proof -
  define self where "self = DroneSimulator_init 9002 ''drone-sim-1''"
  define c0 where "c0 = handle_client self ''peer'' (Inr ()) 0"
  define evs where "evs = [Tick (1 / 100) (1 / 2) (1 / 2) ''t1'' (Inl ConnectionClosed), RecvEnd]"
  have r: "returned (run self ''peer'' evs c0)"
    by (simp add: evs_def c0_def handle_client_def Let_def physics_loop_def
        physics_loop_except_def update_Inr gather_def)
  have m: "message_handler_running c0" and p: "physics_loop_running c0"
    by (simp_all add: c0_def handle_client_def Let_def)
  from activities_end_on_their_own [of self "''peer''" evs "Inr ()" 0
      "1 / 100" "1 / 2" "1 / 2" "''t1''" "Inl ConnectionClosed" c0 "''x''" "Inl OtherException"
      ConnectionClosed] r m p
  show ?thesis
    unfolding Let_def self_def [symmetric] c0_def [symmetric] evs_def [symmetric] by blast
qed

section \<open>The wrap-around of the angle on doubles\<close>






text \<open>
  Where the exact remainder and the remainder on doubles agree: no rounding takes place
  when the dividend is not negative and the divisor is positive.
\<close>

lemma float_rem_nonneg:
  assumes "0 \<le> x" and "0 < y"
  shows "float_rem x y = py_fmod x y"
proof -
  define n :: real where "n = of_int \<lfloor>x / y\<rfloor>"
  have q: "0 \<le> x / y" using assms by simp
  have "n \<le> x / y" unfolding n_def by linarith
  with assms(2) have "n * y \<le> x" by (simp only: pos_le_divide_eq)
  then have m: "\<not> x - y * n < 0" by (simp add: mult.commute)
  have c: "c_fmod x y = x - y * n"
    using q by (simp add: c_fmod_def n_def)
  show ?thesis
    using assms(2) m by (simp add: float_rem_def py_fmod_def Let_def c n_def [symmetric])
qed



end
